theory Spec2Isabelle
  imports Main
begin

section \<open>Python values, dictionaries and errors\<close>

text \<open>
  The converters of \<^verbatim>\<open>yaml_conversion/converters.py\<close> work on the values a YAML loader
  produces. The module is Python 2, so a string is a byte string (\<^verbatim>\<open>str\<close>) or a
  \<^verbatim>\<open>unicode\<close> string (a list of code points): a YAML loader gives \<^verbatim>\<open>unicode\<close> for a
  scalar with a character outside ASCII. The value universe modelled here is:
  \<^verbatim>\<open>None\<close>, booleans, unbounded integers, both kinds of strings, lists and
  dictionaries with string keys. A dictionary is a partial map, since the order of
  its keys carries no meaning.
\<close>

datatype pyval =
    PNone
  | PBool bool
  | PInt int
  | PStr string
  | PUnicode "nat list"
  | PList "pyval list"
  | PDict "string \<Rightarrow> pyval option"

type_synonym handler = "string \<Rightarrow> pyval option"

text \<open>
  Every \<^verbatim>\<open>raise\<close> of the module raises \<^verbatim>\<open>ValueError\<close>; the argument kept here is the
  message template (the text before the \<^verbatim>\<open>%\<close> operator). \<^verbatim>\<open>KeyError\<close> (a subscript
  on a missing key, carrying the key) and \<^verbatim>\<open>AttributeError\<close> (a string method called on
  a value that is not a string) are errors of the Python runtime the code can reach,
  and so is \<^verbatim>\<open>UnicodeEncodeError\<close>, a subclass of \<^verbatim>\<open>ValueError\<close> that \<^verbatim>\<open>str\<close> raises on
  a \<^verbatim>\<open>unicode\<close> string with a character outside ASCII.
\<close>

datatype error =
    ValueError string
  | KeyError string
  | AttributeError
  | UnicodeEncodeError

text \<open>
  An exception ends the evaluation of the enclosing expression: the rest runs only on
  a value.
\<close>

definition bind_err :: "error + 'a \<Rightarrow> ('a \<Rightarrow> error + 'b) \<Rightarrow> error + 'b" where
  "bind_err r f = (case r of Inl e \<Rightarrow> Inl e | Inr v \<Rightarrow> f v)"

text \<open>\<^verbatim>\<open>key in d\<close>\<close>

definition has_key :: "handler \<Rightarrow> string \<Rightarrow> bool" where
  "has_key d k = (d k \<noteq> None)"

text \<open>\<^verbatim>\<open>d[key]\<close>, which raises \<^verbatim>\<open>KeyError\<close> on a missing key.\<close>

definition getitem :: "handler \<Rightarrow> string \<Rightarrow> error + pyval" where
  "getitem d k = (case d k of None \<Rightarrow> Inl (KeyError k) | Some v \<Rightarrow> Inr v)"

section \<open>The field tables\<close>

definition COMMON_HANDLER_FIELDS :: "string list" where
  "COMMON_HANDLER_FIELDS =
     [''urlRegex'', ''login'', ''authFailAction'', ''securityLevel'',
      ''redirectHttpResponseCode'']"

definition SCRIPT_FIELDS :: "string list" where
  "SCRIPT_FIELDS = [''scriptPath'']"

definition HANDLER_FIELDS :: "string \<Rightarrow> string list option" where
  "HANDLER_FIELDS =
     map_of
       [(''staticFiles'',
           [''path'', ''uploadPathRegex'', ''httpHeaders'', ''expiration'',
            ''applicationReadable'', ''mimeType'', ''requireMatchingFile'']),
        (''script'', SCRIPT_FIELDS),
        (''apiEndpoint'', SCRIPT_FIELDS)]"

section \<open>The handler type resolver\<close>

text \<open>
  \<^verbatim>\<open>_GetHandlerType\<close>: an \<^verbatim>\<open>if\<close>/\<^verbatim>\<open>elif\<close> chain over the four discriminant fields, and
  a \<^verbatim>\<open>ValueError\<close> when the chain falls through.
\<close>

definition GetHandlerType :: "handler \<Rightarrow> error + string" where
  "GetHandlerType handler =
     (if has_key handler ''apiEndpoint'' then Inr ''apiEndpoint''
      else if has_key handler ''staticDir'' then Inr ''staticDirectory''
      else if has_key handler ''path'' then Inr ''staticFiles''
      else if has_key handler ''scriptPath'' then Inr ''script''
      else Inl (ValueError ''Unrecognized handler type: %s''))"

section \<open>The handler transformer\<close>

text \<open>\<^verbatim>\<open>s.rstrip(chars)\<close>: drops every trailing character that occurs in \<^verbatim>\<open>chars\<close>.\<close>

definition rstrip :: "'a list \<Rightarrow> 'a list \<Rightarrow> 'a list" where
  "rstrip s chars = rev (dropWhile (\<lambda>c. c \<in> set chars) (rev s))"

text \<open>
  A byte-string operand of a \<^verbatim>\<open>unicode\<close> operation is decoded as ASCII first. Every
  operand decoded here is a literal of the module (\<^verbatim>\<open>'/'\<close>, \<^verbatim>\<open>r'\1'\<close>, \<^verbatim>\<open>'.*'\<close>,
  \<^verbatim>\<open>'(.*)'\<close>), all ASCII, so the decoding gives the codes of its bytes.
\<close>

definition decode_ascii :: "string \<Rightarrow> nat list" where
  "decode_ascii s = map of_char s"

text \<open>
  The inner function \<^verbatim>\<open>AppendRegexToPath\<close>: \<^verbatim>\<open>path.rstrip('/') + '/' + regex\<close>. The
  method \<^verbatim>\<open>rstrip\<close> exists on the two kinds of strings only; \<^verbatim>\<open>regex\<close> is always a
  byte-string literal. On a \<^verbatim>\<open>unicode\<close> path the result is \<^verbatim>\<open>unicode\<close>.
\<close>

definition AppendRegexToPath :: "pyval \<Rightarrow> string \<Rightarrow> error + pyval" where
  "AppendRegexToPath path regex =
     (case path of
        PStr s \<Rightarrow> Inr (PStr (rstrip s ''/'' @ ''/'' @ regex))
      | PUnicode s \<Rightarrow>
          Inr (PUnicode (rstrip s (decode_ascii ''/'') @ decode_ascii ''/'' @
                         decode_ascii regex))
      | _ \<Rightarrow> Inl AttributeError)"

text \<open>
  The dictionary display \<^verbatim>\<open>tmp = {'path': ..., 'uploadPathRegex': ..., 'urlRegex': ...}\<close>
  of the sugar expansion; its three entries are evaluated in this order, and the first
  failing subscript or call ends the evaluation. The raw literal \<^verbatim>\<open>r'\1'\<close> is a
  backslash (character 0x5C) followed by the digit 1.
\<close>

definition static_dir_tmp :: "handler \<Rightarrow> error + handler" where
  "static_dir_tmp handler =
     bind_err (getitem handler ''staticDir'') (\<lambda>d1.
     bind_err (AppendRegexToPath d1 [CHR 0x5C, CHR ''1'']) (\<lambda>path.
     bind_err (getitem handler ''staticDir'') (\<lambda>d2.
     bind_err (AppendRegexToPath d2 ''.*'') (\<lambda>upload.
     bind_err (getitem handler ''urlRegex'') (\<lambda>u.
     bind_err (AppendRegexToPath u ''(.*)'') (\<lambda>url.
       Inr [''path'' \<mapsto> path, ''uploadPathRegex'' \<mapsto> upload,
            ''urlRegex'' \<mapsto> url]))))))"

text \<open>
  The two copy loops \<^verbatim>\<open>for field in fields: if field in handler: target[field] =
  handler[field]\<close>, as a recursion over the list of field names.
\<close>

fun copy_fields :: "string list \<Rightarrow> handler \<Rightarrow> handler \<Rightarrow> handler" where
  "copy_fields [] handler target = target"
| "copy_fields (field # fields) handler target =
     copy_fields fields handler
       (if has_key handler field
        then (case getitem handler field of Inr v \<Rightarrow> target(field \<mapsto> v) | Inl e \<Rightarrow> target)
        else target)"

text \<open>
  The restructuring stage (from \<^verbatim>\<open>new_handler = {}\<close> to the \<^verbatim>\<open>return\<close>): the
  sub-message is filled from the allowlist of the type, then the common fields are
  copied to the top level. The subscript \<^verbatim>\<open>_HANDLER_FIELDS[handler_type]\<close> raises
  \<^verbatim>\<open>KeyError\<close> for a type that has no allowlist.
\<close>

definition restructure :: "handler \<Rightarrow> string \<Rightarrow> error + handler" where
  "restructure handler handler_type =
     (case HANDLER_FIELDS handler_type of
        None \<Rightarrow> Inl (KeyError handler_type)
      | Some fields \<Rightarrow>
          Inr (copy_fields COMMON_HANDLER_FIELDS handler
                 [handler_type \<mapsto> PDict (copy_fields fields handler Map.empty)]))"

text \<open>
  \<^verbatim>\<open>ConvertUrlHandler\<close>. The function updates its argument in place, so the model
  returns the dictionary the argument holds when the call ends (normally or by an
  exception) together with the outcome: the new handler, or the error raised.
  In the sugar branch \<^verbatim>\<open>del handler['staticDir']\<close> removes a key that is present (the
  resolver found it), and \<^verbatim>\<open>handler.update(tmp)\<close> overwrites the three keys of
  \<^verbatim>\<open>tmp\<close>.
\<close>

definition ConvertUrlHandler :: "handler \<Rightarrow> handler \<times> (error + handler)" where
  "ConvertUrlHandler handler =
     (case GetHandlerType handler of
        Inl e \<Rightarrow> (handler, Inl e)
      | Inr handler_type \<Rightarrow>
          if handler_type = ''staticDirectory'' then
            (case static_dir_tmp handler of
               Inl e \<Rightarrow> (handler, Inl e)
             | Inr tmp \<Rightarrow>
                 (let handler' = (handler(''staticDir'' := None)) ++ tmp
                  in (handler', restructure handler' ''staticFiles'')))
          else (handler, restructure handler handler_type))"

section \<open>The value converters\<close>

text \<open>
  \<^verbatim>\<open>s.upper()\<close> and \<^verbatim>\<open>s.lower()\<close> on a byte string: the letters \<^verbatim>\<open>a\<close> to \<^verbatim>\<open>z\<close> and
  \<^verbatim>\<open>A\<close> to \<^verbatim>\<open>Z\<close> are mapped to each other, every other byte is kept.
\<close>

definition upper_char :: "char \<Rightarrow> char" where
  "upper_char c =
     (case map_of (zip ''abcdefghijklmnopqrstuvwxyz'' ''ABCDEFGHIJKLMNOPQRSTUVWXYZ'') c of
        Some u \<Rightarrow> u
      | None \<Rightarrow> c)"

definition upper :: "string \<Rightarrow> string" where
  "upper s = map upper_char s"

definition lower_char :: "char \<Rightarrow> char" where
  "lower_char c =
     (case map_of (zip ''ABCDEFGHIJKLMNOPQRSTUVWXYZ'' ''abcdefghijklmnopqrstuvwxyz'') c of
        Some l \<Rightarrow> l
      | None \<Rightarrow> c)"

definition lower :: "string \<Rightarrow> string" where
  "lower s = map lower_char s"

text \<open>\<^verbatim>\<open>s.endswith(suffix)\<close>\<close>

definition endswith :: "string \<Rightarrow> string \<Rightarrow> bool" where
  "endswith s suffix =
     (length suffix \<le> length s \<and> drop (length s - length suffix) s = suffix)"

text \<open>\<^verbatim>\<open>sep.join(items)\<close>\<close>

fun join :: "string \<Rightarrow> string list \<Rightarrow> string" where
  "join sep [] = []"
| "join sep [x] = x"
| "join sep (x # y # ys) = x @ sep @ join sep (y # ys)"

text \<open>
  \<^verbatim>\<open>EnumConverter\<close>: the three checks run when the factory is called, so a refused
  prefix gives an error and no function. \<^verbatim>\<open>not prefix\<close> holds for the empty string.
  The returned \<^verbatim>\<open>lambda\<close> takes the string to convert. Character 0x22 is the double
  quote of the last message.
\<close>

definition EnumConverter :: "string \<Rightarrow> error + (string \<Rightarrow> string)" where
  "EnumConverter prefix =
     (if prefix = [] then Inl (ValueError ''A prefix must be provided'')
      else if prefix \<noteq> upper prefix then Inl (ValueError ''Upper-cased prefix must be provided'')
      else if endswith prefix ''_'' then
        Inl (ValueError (''Prefix should not contain a trailing underscore: '' @
                         [CHR 0x22] @ ''%s'' @ [CHR 0x22]))
      else Inr (\<lambda>value. join ''_'' [prefix, upper value]))"

text \<open>
  \<^verbatim>\<open>str(value)\<close> for an integer (decimal digits, with a minus sign for a negative
  number) and for a boolean.
\<close>

fun str_nat :: "nat \<Rightarrow> string" where
  "str_nat n =
     (if n < 10 then [''0123456789'' ! n]
      else str_nat (n div 10) @ [''0123456789'' ! (n mod 10)])"

declare str_nat.simps [simp del]

definition str_int :: "int \<Rightarrow> string" where
  "str_int i = (if i < 0 then CHR ''-'' # str_nat (nat (- i)) else str_nat (nat i))"

definition str_bool :: "bool \<Rightarrow> string" where
  "str_bool b = (if b then ''True'' else ''False'')"

text \<open>
  \<^verbatim>\<open>ToJsonString\<close>: the \<^verbatim>\<open>isinstance\<close> test for lists and dictionaries comes first,
  then the one for booleans; every other value goes through \<^verbatim>\<open>str\<close>, which is the
  identity on a byte string, gives \<^verbatim>\<open>None\<close> for \<^verbatim>\<open>None\<close>, and encodes a \<^verbatim>\<open>unicode\<close>
  string as ASCII: it raises \<^verbatim>\<open>UnicodeEncodeError\<close> when a code point is above 127.
\<close>

definition ToJsonString :: "pyval \<Rightarrow> error + string" where
  "ToJsonString value =
     (case value of
        PList xs \<Rightarrow> Inl (ValueError (''Expected a primitive value. Got '' @
                                    [CHR 0x22] @ ''%s'' @ [CHR 0x22]))
      | PDict d \<Rightarrow> Inl (ValueError (''Expected a primitive value. Got '' @
                                   [CHR 0x22] @ ''%s'' @ [CHR 0x22]))
      | PBool b \<Rightarrow> Inr (lower (str_bool b))
      | PInt i \<Rightarrow> Inr (str_int i)
      | PStr s \<Rightarrow> Inr s
      | PUnicode u \<Rightarrow>
          if list_all (\<lambda>c. c < 128) u then Inr (map char_of u) else Inl UnicodeEncodeError
      | PNone \<Rightarrow> Inr ''None'')"

text \<open>
  \<^verbatim>\<open>int(value)\<close> on a string, as the language reference has it: a decimal integer
  literal, optionally preceded by \<^verbatim>\<open>+\<close> or \<^verbatim>\<open>-\<close> (with no space in between) and
  surrounded by whitespace; anything else raises \<^verbatim>\<open>ValueError\<close>. The result is an
  unbounded integer.
\<close>

definition isspace :: "char \<Rightarrow> bool" where
  "isspace c = (c \<in> set [CHR 0x20, CHR 0x09, CHR 0x0A, CHR 0x0B, CHR 0x0C, CHR 0x0D])"

definition strip :: "string \<Rightarrow> string" where
  "strip s = dropWhile isspace (rev (dropWhile isspace (rev s)))"

definition digit_val :: "char \<Rightarrow> nat option" where
  "digit_val c = map_of (zip ''0123456789'' [0, 1, 2, 3, 4, 5, 6, 7, 8, 9]) c"

fun digits_val :: "string \<Rightarrow> nat \<Rightarrow> nat option" where
  "digits_val [] acc = Some acc"
| "digits_val (c # cs) acc =
     (case digit_val c of None \<Rightarrow> None | Some d \<Rightarrow> digits_val cs (10 * acc + d))"

definition py_int :: "string \<Rightarrow> error + int" where
  "py_int s =
     (let t = strip s;
          signed = (t \<noteq> [] \<and> (hd t = CHR ''-'' \<or> hd t = CHR ''+''));
          digits = (if signed then tl t else t)
      in if digits = [] then Inl (ValueError ''invalid literal for int() with base 10: %s'')
         else
           (case digits_val digits 0 of
              None \<Rightarrow> Inl (ValueError ''invalid literal for int() with base 10: %s'')
            | Some n \<Rightarrow> Inr (if hd t = CHR ''-'' then - int n else int n)))"


text \<open>
  \<^verbatim>\<open>LatencyToDuration\<close>. The pattern \<^verbatim>\<open>appinfo._PENDING_LATENCY_REGEX\<close> comes from a
  module outside these sources, so the match is the parameter \<open>pending_latency_match\<close>.
  The branch for \<^verbatim>\<open>ms\<close> computes \<^verbatim>\<open>float(value[:-2]) / 1000\<close> in floating point and
  formats the quotient with \<^verbatim>\<open>str\<close>; that computation, on the text before the suffix,
  is the parameter \<open>seconds_of_ms\<close> (it fails where \<^verbatim>\<open>float\<close> raises).
\<close>

definition LatencyToDuration ::
    "(string \<Rightarrow> bool) \<Rightarrow> (string \<Rightarrow> error + string) \<Rightarrow> string \<Rightarrow> error + string option" where
  "LatencyToDuration pending_latency_match seconds_of_ms value =
     (if \<not> pending_latency_match value then Inl (ValueError ''Unrecognized latency: %s'')
      else if value = ''automatic'' then Inr None
      else if endswith value ''ms'' then
        (case seconds_of_ms (take (length value - 2) value) of
           Inl e \<Rightarrow> Inl e
         | Inr seconds \<Rightarrow> Inr (Some (seconds @ ''s'')))
      else Inr (Some value))"

section \<open>Auxiliary facts\<close>

lemma bind_err_simps [simp]:
  "bind_err (Inl e) f = Inl e" "bind_err (Inr v) f = f v"
  by (simp_all add: bind_err_def)

lemma copy_fields_apply:
  "copy_fields fields h target k =
     (if k \<in> set fields \<and> has_key h k then h k else target k)"
  by (induction fields arbitrary: target) (auto simp: has_key_def getitem_def split: option.splits)

lemma rstrip_decomp: "\<exists>n. s = rstrip s [c] @ replicate n c"
proof -
  let ?P = "\<lambda>x. x \<in> set [c]"
  have tk: "takeWhile ?P (rev s) = replicate (length (takeWhile ?P (rev s))) c"
    by (rule replicate_length_same [symmetric]) (auto dest: set_takeWhileD)
  have "rev (takeWhile ?P (rev s) @ dropWhile ?P (rev s)) = s"
    by (simp only: takeWhile_dropWhile_id rev_rev_ident)
  then have "rev (dropWhile ?P (rev s)) @ rev (takeWhile ?P (rev s)) = s"
    by (simp only: rev_append)
  then have "s = rstrip s [c] @ rev (takeWhile ?P (rev s))"
    by (simp only: rstrip_def)
  with tk have "s = rstrip s [c] @ replicate (length (takeWhile ?P (rev s))) c"
    by (metis rev_replicate)
  then show ?thesis ..
qed

lemma rstrip_last: "rstrip s [c] \<noteq> [] \<Longrightarrow> last (rstrip s [c]) \<noteq> c"
proof -
  assume ne: "rstrip s [c] \<noteq> []"
  let ?P = "\<lambda>x. x \<in> set [c]"
  from ne have d: "dropWhile ?P (rev s) \<noteq> []" by (simp add: rstrip_def)
  then have "\<not> ?P (hd (dropWhile ?P (rev s)))" by (rule hd_dropWhile)
  moreover have "last (rstrip s [c]) = hd (dropWhile ?P (rev s))"
    using d by (simp add: rstrip_def last_rev)
  ultimately show ?thesis by simp
qed


lemma HANDLER_FIELDS_simps:
  "HANDLER_FIELDS ''staticFiles'' =
     Some [''path'', ''uploadPathRegex'', ''httpHeaders'', ''expiration'',
           ''applicationReadable'', ''mimeType'', ''requireMatchingFile'']"
  "HANDLER_FIELDS ''script'' = Some [''scriptPath'']"
  "HANDLER_FIELDS ''apiEndpoint'' = Some [''scriptPath'']"
  by (simp_all add: HANDLER_FIELDS_def SCRIPT_FIELDS_def)

lemma GetHandlerType_cases:
  "GetHandlerType h = Inr t \<Longrightarrow>
     t = ''apiEndpoint'' \<or> t = ''staticDirectory'' \<or> t = ''staticFiles'' \<or> t = ''script''"
  by (auto simp: GetHandlerType_def split: if_splits)

lemma copy_fields_eq:
  "copy_fields fields h target =
     (\<lambda>k. if k \<in> set fields \<and> has_key h k then h k else target k)"
  by (rule ext) (rule copy_fields_apply)

lemma restructure_eq:
  "HANDLER_FIELDS t = Some fields \<Longrightarrow>
   restructure h t =
     Inr (\<lambda>k. if k \<in> set COMMON_HANDLER_FIELDS \<and> has_key h k then h k
              else if k = t
                then Some (PDict (\<lambda>f. if f \<in> set fields \<and> has_key h f then h f else None))
              else None)"
  by (simp add: restructure_def copy_fields_eq fun_eq_iff)

lemma static_dir_tmp_strings:
  "h ''staticDir'' = Some (PStr d) \<Longrightarrow> h ''urlRegex'' = Some (PStr u) \<Longrightarrow>
   static_dir_tmp h =
     Inr [''path'' \<mapsto> PStr (rstrip d ''/'' @ ''/'' @ [CHR 0x5C, CHR ''1'']),
          ''uploadPathRegex'' \<mapsto> PStr (rstrip d ''/'' @ ''/.*''),
          ''urlRegex'' \<mapsto> PStr (rstrip u ''/'' @ ''/(.*)'')]"
  by (simp add: static_dir_tmp_def getitem_def AppendRegexToPath_def)

lemma static_dir_tmp_no_url:
  "h ''staticDir'' = Some (PStr d) \<Longrightarrow> h ''urlRegex'' = None \<Longrightarrow>
   static_dir_tmp h = Inl (KeyError ''urlRegex'')"
  by (simp add: static_dir_tmp_def getitem_def AppendRegexToPath_def)

lemma AppendRegexToPath_Inr:
  "AppendRegexToPath v regex = Inr p \<Longrightarrow> (\<exists>s. v = PStr s) \<or> (\<exists>s. v = PUnicode s)"
  by (cases v) (simp_all add: AppendRegexToPath_def)

lemma static_dir_tmp_Inr:
  "static_dir_tmp h = Inr tmp \<Longrightarrow>
   \<exists>sd su p up ur.
     h ''staticDir'' = Some sd \<and> h ''urlRegex'' = Some su \<and>
     AppendRegexToPath sd [CHR 0x5C, CHR ''1''] = Inr p \<and>
     AppendRegexToPath sd ''.*'' = Inr up \<and>
     AppendRegexToPath su ''(.*)'' = Inr ur \<and>
     tmp = [''path'' \<mapsto> p, ''uploadPathRegex'' \<mapsto> up, ''urlRegex'' \<mapsto> ur]"
  by (auto simp: static_dir_tmp_def getitem_def bind_err_def
           split: option.splits sum.splits)

lemma ConvertUrlHandler_other:
  "GetHandlerType h = Inr t \<Longrightarrow> t \<noteq> ''staticDirectory'' \<Longrightarrow>
   ConvertUrlHandler h = (h, restructure h t)"
  by (simp add: ConvertUrlHandler_def)

lemma ConvertUrlHandler_sugar:
  "GetHandlerType h = Inr ''staticDirectory'' \<Longrightarrow> static_dir_tmp h = Inr tmp \<Longrightarrow>
   ConvertUrlHandler h =
     ((h(''staticDir'' := None)) ++ tmp,
      restructure ((h(''staticDir'' := None)) ++ tmp) ''staticFiles'')"
  by (simp add: ConvertUrlHandler_def Let_def)

lemma ConvertUrlHandler_sugar_fail:
  "GetHandlerType h = Inr ''staticDirectory'' \<Longrightarrow> static_dir_tmp h = Inl e \<Longrightarrow>
   ConvertUrlHandler h = (h, Inl e)"
  by (simp add: ConvertUrlHandler_def)


lemma rstrip_slash_no_trailing: "\<not> (\<exists>t. rstrip s ''/'' = t @ ''/'')"
proof
  assume "\<exists>t. rstrip s ''/'' = t @ ''/''"
  then obtain t where t: "rstrip s ''/'' = t @ ''/''" ..
  then have "rstrip s ''/'' \<noteq> []" by simp
  then have "last (rstrip s ''/'') \<noteq> CHR ''/''" by (rule rstrip_last)
  with t show False by simp
qed

lemma sugar_closed_form:
  assumes na: "\<not> has_key h ''apiEndpoint''"
    and d: "h ''staticDir'' = Some (PStr d)"
    and u: "h ''urlRegex'' = Some (PStr u)"
  shows "ConvertUrlHandler h =
     ((h(''staticDir'' := None)) ++
        [''path'' \<mapsto> PStr (rstrip d ''/'' @ ''/'' @ [CHR 0x5C, CHR ''1'']),
         ''uploadPathRegex'' \<mapsto> PStr (rstrip d ''/'' @ ''/.*''),
         ''urlRegex'' \<mapsto> PStr (rstrip u ''/'' @ ''/(.*)'')],
      restructure ((h(''staticDir'' := None)) ++
        [''path'' \<mapsto> PStr (rstrip d ''/'' @ ''/'' @ [CHR 0x5C, CHR ''1'']),
         ''uploadPathRegex'' \<mapsto> PStr (rstrip d ''/'' @ ''/.*''),
         ''urlRegex'' \<mapsto> PStr (rstrip u ''/'' @ ''/(.*)'')]) ''staticFiles'')"
proof -
  from na d have "GetHandlerType h = Inr ''staticDirectory''"
    by (simp add: GetHandlerType_def has_key_def)
  then show ?thesis
    by (rule ConvertUrlHandler_sugar) (rule static_dir_tmp_strings [OF d u])
qed

lemma GetHandlerType_sugar_iff:
  "GetHandlerType h = Inr ''staticDirectory'' \<longleftrightarrow>
     \<not> has_key h ''apiEndpoint'' \<and> has_key h ''staticDir''"
  by (simp add: GetHandlerType_def)

lemma ConvertUrlHandler_returns:
  assumes r: "snd (ConvertUrlHandler h) = Inr out"
  shows "\<exists>t fields.
     t \<in> {''staticFiles'', ''script'', ''apiEndpoint''} \<and>
     HANDLER_FIELDS t = Some fields \<and>
     restructure (fst (ConvertUrlHandler h)) t = Inr out \<and>
     (if GetHandlerType h = Inr ''staticDirectory''
      then t = ''staticFiles'' \<and>
           (\<exists>sd su p up ur.
              h ''staticDir'' = Some sd \<and> h ''urlRegex'' = Some su \<and>
              AppendRegexToPath sd [CHR 0x5C, CHR ''1''] = Inr p \<and>
              AppendRegexToPath sd ''.*'' = Inr up \<and>
              AppendRegexToPath su ''(.*)'' = Inr ur \<and>
              fst (ConvertUrlHandler h) =
                (h(''staticDir'' := None)) ++
                  [''path'' \<mapsto> p, ''uploadPathRegex'' \<mapsto> up, ''urlRegex'' \<mapsto> ur])
      else GetHandlerType h = Inr t \<and> fst (ConvertUrlHandler h) = h)"
proof (cases "GetHandlerType h")
  case (Inl e)
  with r show ?thesis by (simp add: ConvertUrlHandler_def)
next
  case (Inr t)
  show ?thesis
  proof (cases "t = ''staticDirectory''")
    case True
    with Inr have g: "GetHandlerType h = Inr ''staticDirectory''" by simp
    show ?thesis
    proof (cases "static_dir_tmp h")
      case (Inl e)
      with r g show ?thesis by (simp add: ConvertUrlHandler_sugar_fail)
    next
      case (Inr tmp)
      from static_dir_tmp_Inr [OF Inr] obtain sd su p up ur where
        s: "h ''staticDir'' = Some sd" "h ''urlRegex'' = Some su"
          "AppendRegexToPath sd [CHR 0x5C, CHR ''1''] = Inr p"
          "AppendRegexToPath sd ''.*'' = Inr up"
          "AppendRegexToPath su ''(.*)'' = Inr ur"
        and tmp: "tmp = [''path'' \<mapsto> p, ''uploadPathRegex'' \<mapsto> up, ''urlRegex'' \<mapsto> ur]"
        by blast
      note c = ConvertUrlHandler_sugar [OF g Inr]
      from r have o: "restructure (fst (ConvertUrlHandler h)) ''staticFiles'' = Inr out"
        unfolding c by simp
      have f: "fst (ConvertUrlHandler h) =
          (h(''staticDir'' := None)) ++
            [''path'' \<mapsto> p, ''uploadPathRegex'' \<mapsto> up, ''urlRegex'' \<mapsto> ur]"
        unfolding c tmp by simp
      have "''staticFiles'' \<in> {''staticFiles'', ''script'', ''apiEndpoint''} \<and>
        HANDLER_FIELDS ''staticFiles'' =
          Some [''path'', ''uploadPathRegex'', ''httpHeaders'', ''expiration'',
                ''applicationReadable'', ''mimeType'', ''requireMatchingFile''] \<and>
        restructure (fst (ConvertUrlHandler h)) ''staticFiles'' = Inr out \<and>
        (if GetHandlerType h = Inr ''staticDirectory''
         then ''staticFiles'' = ''staticFiles'' \<and>
           (\<exists>sd su p up ur.
              h ''staticDir'' = Some sd \<and> h ''urlRegex'' = Some su \<and>
              AppendRegexToPath sd [CHR 0x5C, CHR ''1''] = Inr p \<and>
              AppendRegexToPath sd ''.*'' = Inr up \<and>
              AppendRegexToPath su ''(.*)'' = Inr ur \<and>
              fst (ConvertUrlHandler h) =
                (h(''staticDir'' := None)) ++
                  [''path'' \<mapsto> p, ''uploadPathRegex'' \<mapsto> up, ''urlRegex'' \<mapsto> ur])
         else GetHandlerType h = Inr ''staticFiles'' \<and> fst (ConvertUrlHandler h) = h)"
        using g o s f by (simp add: HANDLER_FIELDS_simps)
      then show ?thesis by blast
    qed
  next
    case False
    from GetHandlerType_cases [OF Inr] False
    have t: "t = ''apiEndpoint'' \<or> t = ''staticFiles'' \<or> t = ''script''" by blast
    then obtain fields where f: "HANDLER_FIELDS t = Some fields"
      by (auto simp: HANDLER_FIELDS_simps)
    from r Inr False t f show ?thesis
      by (auto simp: ConvertUrlHandler_other)
  qed
qed

lemma ConvertUrlHandler_returns_sugar:
  assumes r: "snd (ConvertUrlHandler h) = Inr out"
    and g: "GetHandlerType h = Inr ''staticDirectory''"
  shows "\<exists>sd su p up ur.
     h ''staticDir'' = Some sd \<and> h ''urlRegex'' = Some su \<and>
     AppendRegexToPath sd [CHR 0x5C, CHR ''1''] = Inr p \<and>
     AppendRegexToPath sd ''.*'' = Inr up \<and>
     AppendRegexToPath su ''(.*)'' = Inr ur \<and>
     fst (ConvertUrlHandler h) =
       (h(''staticDir'' := None)) ++
         [''path'' \<mapsto> p, ''uploadPathRegex'' \<mapsto> up, ''urlRegex'' \<mapsto> ur]"
proof -
  from ConvertUrlHandler_returns [OF r] obtain t fields where
    "if GetHandlerType h = Inr ''staticDirectory''
      then t = ''staticFiles'' \<and>
           (\<exists>sd su p up ur.
              h ''staticDir'' = Some sd \<and> h ''urlRegex'' = Some su \<and>
              AppendRegexToPath sd [CHR 0x5C, CHR ''1''] = Inr p \<and>
              AppendRegexToPath sd ''.*'' = Inr up \<and>
              AppendRegexToPath su ''(.*)'' = Inr ur \<and>
              fst (ConvertUrlHandler h) =
                (h(''staticDir'' := None)) ++
                  [''path'' \<mapsto> p, ''uploadPathRegex'' \<mapsto> up, ''urlRegex'' \<mapsto> ur])
      else GetHandlerType h = Inr t \<and> fst (ConvertUrlHandler h) = h"
    by blast
  then show ?thesis by (simp only: g if_True simp_thms)
qed

lemma AppendRegexToPath_string:
  "(\<exists>s. v = PStr s) \<or> (\<exists>s. v = PUnicode s) \<Longrightarrow> \<exists>p. AppendRegexToPath v regex = Inr p"
  by (auto simp: AppendRegexToPath_def)

lemma static_dir_tmp_eq:
  "h ''staticDir'' = Some sd \<Longrightarrow> h ''urlRegex'' = Some su \<Longrightarrow>
   AppendRegexToPath sd [CHR 0x5C, CHR ''1''] = Inr p \<Longrightarrow>
   AppendRegexToPath sd ''.*'' = Inr up \<Longrightarrow>
   AppendRegexToPath su ''(.*)'' = Inr ur \<Longrightarrow>
   static_dir_tmp h = Inr [''path'' \<mapsto> p, ''uploadPathRegex'' \<mapsto> up, ''urlRegex'' \<mapsto> ur]"
  by (simp add: static_dir_tmp_def getitem_def)

lemma sugar_returns:
  "GetHandlerType h = Inr ''staticDirectory'' \<Longrightarrow> static_dir_tmp h = Inr tmp \<Longrightarrow>
   \<exists>out. snd (ConvertUrlHandler h) = Inr out"
  by (simp add: ConvertUrlHandler_sugar restructure_eq [OF HANDLER_FIELDS_simps(1)])

lemma sugar_closed_form_strings:
  assumes na: "\<not> has_key h ''apiEndpoint''"
    and d: "h ''staticDir'' = Some sd" and u: "h ''urlRegex'' = Some su"
    and p: "AppendRegexToPath sd [CHR 0x5C, CHR ''1''] = Inr p"
    and up: "AppendRegexToPath sd ''.*'' = Inr up"
    and ur: "AppendRegexToPath su ''(.*)'' = Inr ur"
  shows "ConvertUrlHandler h =
     ((h(''staticDir'' := None)) ++
        [''path'' \<mapsto> p, ''uploadPathRegex'' \<mapsto> up, ''urlRegex'' \<mapsto> ur],
      restructure ((h(''staticDir'' := None)) ++
        [''path'' \<mapsto> p, ''uploadPathRegex'' \<mapsto> up, ''urlRegex'' \<mapsto> ur]) ''staticFiles'')"
proof -
  from na d have "GetHandlerType h = Inr ''staticDirectory''"
    by (simp add: GetHandlerType_def has_key_def)
  then show ?thesis
    by (rule ConvertUrlHandler_sugar) (rule static_dir_tmp_eq [OF d u p up ur])
qed

lemma static_dir_tmp_no_url_strings:
  "h ''staticDir'' = Some sd \<Longrightarrow> (\<exists>s. sd = PStr s) \<or> (\<exists>s. sd = PUnicode s) \<Longrightarrow>
   h ''urlRegex'' = None \<Longrightarrow> static_dir_tmp h = Inl (KeyError ''urlRegex'')"
  by (auto simp: static_dir_tmp_def getitem_def AppendRegexToPath_def)

lemma AppendRegexToPath_bytes:
  "AppendRegexToPath (PStr s) regex = Inr (PStr (rstrip s ''/'' @ ''/'' @ regex))"
  by (simp add: AppendRegexToPath_def)

lemma AppendRegexToPath_unicode:
  "AppendRegexToPath (PUnicode s) regex =
     Inr (PUnicode (rstrip s (decode_ascii ''/'') @ decode_ascii (''/'' @ regex)))"
  by (simp add: AppendRegexToPath_def decode_ascii_def)

lemma rstrip_no_trailing: "\<not> (\<exists>t. rstrip s [c] = t @ [c])"
proof
  assume "\<exists>t. rstrip s [c] = t @ [c]"
  then obtain t where t: "rstrip s [c] = t @ [c]" ..
  then have "rstrip s [c] \<noteq> []" by simp
  then have "last (rstrip s [c]) \<noteq> c" by (rule rstrip_last)
  with t show False by simp
qed

lemma COMMON_mem:
  "k \<in> set COMMON_HANDLER_FIELDS \<longleftrightarrow>
     k = ''urlRegex'' \<or> k = ''login'' \<or> k = ''authFailAction'' \<or> k = ''securityLevel'' \<or>
     k = ''redirectHttpResponseCode''"
  by (simp add: COMMON_HANDLER_FIELDS_def)

lemma restructure_type_key:
  assumes f: "HANDLER_FIELDS t = Some fields" and r: "restructure h t = Inr out"
    and t: "t \<in> {''staticFiles'', ''script'', ''apiEndpoint''}"
  shows "out t = Some (PDict (\<lambda>f. if f \<in> set fields \<and> has_key h f then h f else None))"
    and "t' \<in> {''staticFiles'', ''script'', ''apiEndpoint''} \<Longrightarrow> t' \<noteq> t \<Longrightarrow> out t' = None"
    and "k \<in> set COMMON_HANDLER_FIELDS \<Longrightarrow> out k = h k"
proof -
  from r have o: "out = (\<lambda>k. if k \<in> set COMMON_HANDLER_FIELDS \<and> has_key h k then h k
              else if k = t
                then Some (PDict (\<lambda>f. if f \<in> set fields \<and> has_key h f then h f else None))
              else None)"
    by (simp add: restructure_eq [OF f])
  from t show "out t = Some (PDict (\<lambda>f. if f \<in> set fields \<and> has_key h f then h f else None))"
    unfolding o by (auto simp: COMMON_mem)
  show "t' \<in> {''staticFiles'', ''script'', ''apiEndpoint''} \<Longrightarrow> t' \<noteq> t \<Longrightarrow> out t' = None"
    unfolding o by (auto simp: COMMON_mem)
  show "k \<in> set COMMON_HANDLER_FIELDS \<Longrightarrow> out k = h k"
    unfolding o using t by (auto simp: COMMON_mem has_key_def)
qed

lemma ConvertUrlHandler_fail_unchanged:
  assumes r: "snd (ConvertUrlHandler h) = Inl e"
  shows "fst (ConvertUrlHandler h) = h"
proof (cases "GetHandlerType h")
  case (Inl e')
  then show ?thesis by (simp add: ConvertUrlHandler_def)
next
  case (Inr t)
  show ?thesis
  proof (cases "t = ''staticDirectory''")
    case False
    with Inr show ?thesis by (simp add: ConvertUrlHandler_other)
  next
    case True
    with Inr have g: "GetHandlerType h = Inr ''staticDirectory''" by simp
    show ?thesis
    proof (cases "static_dir_tmp h")
      case (Inl e')
      with g show ?thesis by (simp add: ConvertUrlHandler_sugar_fail)
    next
      case (Inr tmp)
      with g r show ?thesis
        by (simp add: ConvertUrlHandler_sugar restructure_eq [OF HANDLER_FIELDS_simps(1)])
    qed
  qed
qed

lemma apiEndpoint_closed_form:
  assumes a: "has_key h ''apiEndpoint''"
  shows "ConvertUrlHandler h =
     (h, Inr (\<lambda>k. if k \<in> set COMMON_HANDLER_FIELDS \<and> has_key h k then h k
              else if k = ''apiEndpoint''
                then Some (PDict (\<lambda>f. if f \<in> set [''scriptPath''] \<and> has_key h f then h f
                                       else None))
              else None))"
proof -
  from a have g: "GetHandlerType h = Inr ''apiEndpoint''" by (simp add: GetHandlerType_def)
  show ?thesis
    by (simp add: ConvertUrlHandler_other [OF g] restructure_eq [OF HANDLER_FIELDS_simps(3)])
qed

lemma upper_char_fixed:
  "upper_char c = c \<longleftrightarrow> c \<notin> set ''abcdefghijklmnopqrstuvwxyz''"
  by (simp add: upper_char_def)

lemma upper_fixed:
  "upper s = s \<longleftrightarrow> (\<forall>c \<in> set s. c \<notin> set ''abcdefghijklmnopqrstuvwxyz'')"
  unfolding upper_def by (induction s) (simp_all only: list.map list.inject upper_char_fixed list.set ball_simps insert_iff, auto)

lemma endswith_underscore:
  "endswith s ''_'' \<longleftrightarrow> s \<noteq> [] \<and> last s = CHR ''_''"
proof (cases s rule: rev_cases)
  case Nil
  then show ?thesis by (simp add: endswith_def)
next
  case (snoc ys y)
  then show ?thesis by (auto simp: endswith_def)
qed

lemma digit_cases:
  "d < 10 \<Longrightarrow> d = 0 \<or> d = 1 \<or> d = 2 \<or> d = 3 \<or> d = 4 \<or> d = 5 \<or> d = 6 \<or> d = 7 \<or> d = 8 \<or> d = (9::nat)"
  by arith

lemma digit_char_val: "d < 10 \<Longrightarrow> digit_val (''0123456789'' ! d) = Some d"
  by (drule digit_cases) (auto simp: digit_val_def)

lemma digit_char_plain:
  "d < 10 \<Longrightarrow> \<not> isspace (''0123456789'' ! d) \<and> ''0123456789'' ! d \<noteq> CHR ''-'' \<and>
     ''0123456789'' ! d \<noteq> CHR ''+'' \<and> ''0123456789'' ! d \<noteq> CHR ''a''"
  by (drule digit_cases) (auto simp: isspace_def)

lemma digits_val_append:
  "digits_val (xs @ ys) acc =
     (case digits_val xs acc of None \<Rightarrow> None | Some m \<Rightarrow> digits_val ys m)"
  by (induction xs arbitrary: acc) (auto split: option.splits)

lemma digits_val_str_nat: "digits_val (str_nat n) 0 = Some n"
proof (induction n rule: str_nat.induct)
  case (1 n)
  show ?case
  proof (cases "n < 10")
    case True
    then show ?thesis by (simp add: str_nat.simps [of n] digit_char_val)
  next
    case False
    with 1 have "digits_val (str_nat (n div 10)) 0 = Some (n div 10)" by simp
    with False show ?thesis
      by (simp add: str_nat.simps [of n] digits_val_append digit_char_val)
  qed
qed

lemma str_nat_nonempty: "str_nat n \<noteq> []"
  by (simp add: str_nat.simps [of n])

lemma str_nat_last: "\<exists>d < 10. last (str_nat n) = ''0123456789'' ! d"
  by (cases "n < 10") (auto simp: str_nat.simps [of n] intro: exI [of _ "n mod 10"])

lemma str_nat_hd: "\<exists>d < 10. hd (str_nat n) = ''0123456789'' ! d"
proof (induction n rule: str_nat.induct)
  case (1 n)
  show ?case
  proof (cases "n < 10")
    case True
    then show ?thesis by (auto simp: str_nat.simps [of n])
  next
    case False
    with 1 obtain d where "d < 10" "hd (str_nat (n div 10)) = ''0123456789'' ! d" by auto
    with False show ?thesis
      using str_nat_nonempty [of "n div 10"]
      by (subst str_nat.simps) auto
  qed
qed

lemma strip_surround:
  assumes w1: "list_all isspace ws1" and w2: "list_all isspace ws2"
    and ne: "core \<noteq> []" and h: "\<not> isspace (hd core)" and l: "\<not> isspace (last core)"
  shows "strip (ws1 @ core @ ws2) = core"
proof -
  from w2 have "dropWhile isspace (rev ws2 @ rev core @ rev ws1) =
      dropWhile isspace (rev core @ rev ws1)"
    by (intro dropWhile_append2) (simp add: list_all_iff)
  also from ne l have "\<dots> = rev core @ rev ws1"
    by (cases core rule: rev_cases) simp_all
  finally have "rev (dropWhile isspace (rev (ws1 @ core @ ws2))) = ws1 @ core" by simp
  moreover from w1 have "dropWhile isspace (ws1 @ core) = dropWhile isspace core"
    by (intro dropWhile_append2) (simp add: list_all_iff)
  moreover from ne h have "dropWhile isspace core = core" by (cases core) simp_all
  ultimately show ?thesis by (simp add: strip_def)
qed

lemma strip_plain:
  "s \<noteq> [] \<Longrightarrow> \<not> isspace (hd s) \<Longrightarrow> \<not> isspace (last s) \<Longrightarrow> strip s = s"
  using strip_surround [of "[]" "[]" s] by simp

lemma py_int_str_int: "py_int (str_int i) = Inr i"
proof -
  obtain dh where dh: "dh < 10" "hd (str_nat (nat \<bar>i\<bar>)) = ''0123456789'' ! dh"
    using str_nat_hd by blast
  obtain dl where dl: "dl < 10" "last (str_nat (nat \<bar>i\<bar>)) = ''0123456789'' ! dl"
    using str_nat_last by blast
  note ne = str_nat_nonempty [of "nat \<bar>i\<bar>"]
  note ph = digit_char_plain [OF dh(1)] and pl = digit_char_plain [OF dl(1)]
  show ?thesis
  proof (cases "i < 0")
    case True
    then have s: "str_int i = CHR ''-'' # str_nat (nat \<bar>i\<bar>)" by (simp add: str_int_def)
    have "strip (str_int i) = str_int i"
      unfolding s using ne pl dl by (intro strip_plain) (simp_all add: isspace_def)
    with True show ?thesis
      unfolding s by (simp add: py_int_def Let_def str_nat_nonempty digits_val_str_nat)
  next
    case False
    then have s: "str_int i = str_nat (nat \<bar>i\<bar>)" by (simp add: str_int_def)
    have "strip (str_int i) = str_int i"
      unfolding s using ne ph pl dh dl by (intro strip_plain) simp_all
    with False ph dh show ?thesis
      unfolding s by (simp add: py_int_def Let_def str_nat_nonempty digits_val_str_nat)
  qed
qed










section \<open>Properties of the handler type resolver\<close>

text \<open>
  C3: the resolver returns \<^verbatim>\<open>apiEndpoint\<close> if that field is present, otherwise
  \<^verbatim>\<open>staticDirectory\<close> if \<^verbatim>\<open>staticDir\<close> is present, otherwise \<^verbatim>\<open>staticFiles\<close> if
  \<^verbatim>\<open>path\<close> is present, otherwise \<^verbatim>\<open>script\<close> if \<^verbatim>\<open>scriptPath\<close> is present (whatever
  other discriminants occur with it), and it fails, with the classification
  \<^verbatim>\<open>ValueError\<close>, exactly when none of the four fields is present.
\<close>

theorem GetHandlerType_precedence:
  "(has_key h ''apiEndpoint'' \<longrightarrow> GetHandlerType h = Inr ''apiEndpoint'') \<and>
   (\<not> has_key h ''apiEndpoint'' \<and> has_key h ''staticDir'' \<longrightarrow>
      GetHandlerType h = Inr ''staticDirectory'') \<and>
   (\<not> has_key h ''apiEndpoint'' \<and> \<not> has_key h ''staticDir'' \<and> has_key h ''path'' \<longrightarrow>
      GetHandlerType h = Inr ''staticFiles'') \<and>
   (\<not> has_key h ''apiEndpoint'' \<and> \<not> has_key h ''staticDir'' \<and> \<not> has_key h ''path'' \<and>
    has_key h ''scriptPath'' \<longrightarrow> GetHandlerType h = Inr ''script'') \<and>
   ((\<exists>e. GetHandlerType h = Inl e) \<longleftrightarrow>
      \<not> has_key h ''apiEndpoint'' \<and> \<not> has_key h ''staticDir'' \<and> \<not> has_key h ''path'' \<and>
      \<not> has_key h ''scriptPath'') \<and>
   (\<forall>e. GetHandlerType h = Inl e \<longrightarrow> e = ValueError ''Unrecognized handler type: %s'')"
  by (simp add: GetHandlerType_def)

theorem GetHandlerType_precedence_witness:
  "has_key [''scriptPath'' \<mapsto> PStr ''main.app'', ''path'' \<mapsto> PStr ''p'',
            ''staticDir'' \<mapsto> PStr ''d''] ''staticDir'' \<and>
   \<not> has_key [''scriptPath'' \<mapsto> PStr ''main.app'', ''path'' \<mapsto> PStr ''p'',
              ''staticDir'' \<mapsto> PStr ''d''] ''apiEndpoint'' \<and>
   GetHandlerType [''scriptPath'' \<mapsto> PStr ''main.app'', ''path'' \<mapsto> PStr ''p'',
                   ''staticDir'' \<mapsto> PStr ''d''] = Inr ''staticDirectory'' \<and>
   GetHandlerType [''login'' \<mapsto> PStr ''admin''] =
     Inl (ValueError ''Unrecognized handler type: %s'')"
  using GetHandlerType_precedence
          [of "[''scriptPath'' \<mapsto> PStr ''main.app'', ''path'' \<mapsto> PStr ''p'',
                ''staticDir'' \<mapsto> PStr ''d'']"]
        GetHandlerType_precedence [of "[''login'' \<mapsto> PStr ''admin'']"]
  by (auto simp: has_key_def)

section \<open>Properties of the handler transformer\<close>

text \<open>
  C1: for a handler that resolves to \<^verbatim>\<open>staticDirectory\<close> (it has \<^verbatim>\<open>staticDir\<close> and
  not \<^verbatim>\<open>apiEndpoint\<close>) whose \<^verbatim>\<open>staticDir\<close> and \<^verbatim>\<open>urlRegex\<close> are strings (each a byte
  string or a \<^verbatim>\<open>unicode\<close> string), \<^verbatim>\<open>ConvertUrlHandler\<close> returns a record whose
  top-level \<^verbatim>\<open>urlRegex\<close> is the input \<^verbatim>\<open>urlRegex\<close> without its trailing slashes
  followed by \<^verbatim>\<open>/(.*)\<close>, and whose \<^verbatim>\<open>staticFiles\<close> sub-message has \<^verbatim>\<open>path\<close> and
  \<^verbatim>\<open>uploadPathRegex\<close> equal to the input \<^verbatim>\<open>staticDir\<close> without its trailing slashes
  followed by \<^verbatim>\<open>/\1\<close> and by \<^verbatim>\<open>/.*\<close>; each result is a string of the kind of its
  input. Neither \<^verbatim>\<open>staticDir\<close> nor \<^verbatim>\<open>staticDirectory\<close> is a key of the output. The
  last two conjuncts say what stripping means, for either kind of string: the
  stripped string is the input up to a run of slashes, and it does not end with a
  slash.
\<close>

theorem ConvertUrlHandler_staticDir_expansion:
  assumes na: "\<not> has_key h ''apiEndpoint''"
    and d: "h ''staticDir'' = Some sd"
    and u: "h ''urlRegex'' = Some su"
    and sd: "(\<exists>s. sd = PStr s) \<or> (\<exists>s. sd = PUnicode s)"
    and su: "(\<exists>s. su = PStr s) \<or> (\<exists>s. su = PUnicode s)"
  shows "\<exists>h' out sub.
     ConvertUrlHandler h = (h', Inr out) \<and>
     out ''staticFiles'' = Some (PDict sub) \<and>
     (\<forall>u. su = PStr u \<longrightarrow>
        out ''urlRegex'' = Some (PStr (rstrip u ''/'' @ ''/(.*)''))) \<and>
     (\<forall>u. su = PUnicode u \<longrightarrow>
        out ''urlRegex'' =
          Some (PUnicode (rstrip u (decode_ascii ''/'') @ decode_ascii ''/(.*)''))) \<and>
     (\<forall>d. sd = PStr d \<longrightarrow>
        sub ''path'' = Some (PStr (rstrip d ''/'' @ ''/'' @ [CHR 0x5C, CHR ''1''])) \<and>
        sub ''uploadPathRegex'' = Some (PStr (rstrip d ''/'' @ ''/.*''))) \<and>
     (\<forall>d. sd = PUnicode d \<longrightarrow>
        sub ''path'' =
          Some (PUnicode (rstrip d (decode_ascii ''/'') @
                          decode_ascii (''/'' @ [CHR 0x5C, CHR ''1'']))) \<and>
        sub ''uploadPathRegex'' =
          Some (PUnicode (rstrip d (decode_ascii ''/'') @ decode_ascii ''/.*''))) \<and>
     out ''staticDir'' = None \<and> out ''staticDirectory'' = None \<and>
     sub ''staticDir'' = None \<and> sub ''staticDirectory'' = None \<and>
     (\<forall>s. (\<exists>n. s = rstrip s ''/'' @ replicate n (CHR ''/'')) \<and>
          \<not> (\<exists>t. rstrip s ''/'' = t @ ''/'')) \<and>
     (\<forall>s. (\<exists>n. s = rstrip s (decode_ascii ''/'') @ replicate n (of_char (CHR ''/''))) \<and>
          \<not> (\<exists>t. rstrip s (decode_ascii ''/'') = t @ decode_ascii ''/''))"
proof -
  from AppendRegexToPath_string [OF sd] obtain p where
    p: "AppendRegexToPath sd [CHR 0x5C, CHR ''1''] = Inr p" by blast
  from AppendRegexToPath_string [OF sd] obtain up where
    up: "AppendRegexToPath sd ''.*'' = Inr up" by blast
  from AppendRegexToPath_string [OF su] obtain ur where
    ur: "AppendRegexToPath su ''(.*)'' = Inr ur" by blast
  let ?h' = "(h(''staticDir'' := None)) ++
        [''path'' \<mapsto> p, ''uploadPathRegex'' \<mapsto> up, ''urlRegex'' \<mapsto> ur]"
  let ?sub = "\<lambda>f. if f \<in> set [''path'', ''uploadPathRegex'', ''httpHeaders'', ''expiration'',
                  ''applicationReadable'', ''mimeType'', ''requireMatchingFile''] \<and>
                has_key ?h' f then ?h' f else None"
  let ?out = "\<lambda>k. if k \<in> set COMMON_HANDLER_FIELDS \<and> has_key ?h' k then ?h' k
              else if k = ''staticFiles'' then Some (PDict ?sub) else None"
  have c: "ConvertUrlHandler h = (?h', Inr ?out)"
    unfolding sugar_closed_form_strings [OF na d u p up ur]
    by (simp only: restructure_eq [OF HANDLER_FIELDS_simps(1)])
  have o1: "?out ''staticFiles'' = Some (PDict ?sub)" by (simp add: COMMON_mem)
  have o2: "?out ''urlRegex'' = Some ur" by (simp add: COMMON_mem has_key_def)
  have o3: "?out ''staticDir'' = None" "?out ''staticDirectory'' = None"
    by (simp_all add: COMMON_mem)
  have s1: "?sub ''path'' = Some p" "?sub ''uploadPathRegex'' = Some up"
    by (simp_all add: has_key_def)
  have s2: "?sub ''staticDir'' = None" "?sub ''staticDirectory'' = None" by simp_all
  have ub: "\<forall>u. su = PStr u \<longrightarrow> ?out ''urlRegex'' = Some (PStr (rstrip u ''/'' @ ''/(.*)''))"
    using ur unfolding o2 by (auto simp: AppendRegexToPath_bytes)
  have uu: "\<forall>u. su = PUnicode u \<longrightarrow>
        ?out ''urlRegex'' =
          Some (PUnicode (rstrip u (decode_ascii ''/'') @ decode_ascii ''/(.*)''))"
    using ur unfolding o2 by (auto simp: AppendRegexToPath_unicode)
  have db: "\<forall>d. sd = PStr d \<longrightarrow>
        ?sub ''path'' = Some (PStr (rstrip d ''/'' @ ''/'' @ [CHR 0x5C, CHR ''1''])) \<and>
        ?sub ''uploadPathRegex'' = Some (PStr (rstrip d ''/'' @ ''/.*''))"
    using p up unfolding s1 by (auto simp: AppendRegexToPath_bytes)
  have du: "\<forall>d. sd = PUnicode d \<longrightarrow>
        ?sub ''path'' =
          Some (PUnicode (rstrip d (decode_ascii ''/'') @
                          decode_ascii (''/'' @ [CHR 0x5C, CHR ''1'']))) \<and>
        ?sub ''uploadPathRegex'' =
          Some (PUnicode (rstrip d (decode_ascii ''/'') @ decode_ascii ''/.*''))"
    using p up unfolding s1 by (auto simp: AppendRegexToPath_unicode)
  have rb: "\<forall>s. (\<exists>n. s = rstrip s ''/'' @ replicate n (CHR ''/'')) \<and>
          \<not> (\<exists>t. rstrip s ''/'' = t @ ''/'')"
    using rstrip_decomp [of _ "CHR ''/''"] rstrip_no_trailing [of _ "CHR ''/''"] by blast
  have ru: "\<forall>s. (\<exists>n. s = rstrip s (decode_ascii ''/'') @ replicate n (of_char (CHR ''/''))) \<and>
          \<not> (\<exists>t. rstrip s (decode_ascii ''/'') = t @ decode_ascii ''/'')"
    unfolding decode_ascii_def list.map
    using rstrip_decomp [of _ "of_char (CHR ''/'') :: nat"]
      rstrip_no_trailing [of _ "of_char (CHR ''/'') :: nat"] by blast
  from c o1 ub uu db du o3 s2 rb ru show ?thesis by (intro exI conjI)
qed

theorem ConvertUrlHandler_staticDir_expansion_witness:
  "\<not> has_key [''urlRegex'' \<mapsto> PStr ''foo'', ''staticDir'' \<mapsto> PStr ''static_files//'']
       ''apiEndpoint'' \<and>
   (\<exists>h' out sub.
     ConvertUrlHandler [''urlRegex'' \<mapsto> PStr ''foo'', ''staticDir'' \<mapsto> PStr ''static_files//'']
       = (h', Inr out) \<and>
     out ''urlRegex'' = Some (PStr ''foo/(.*)'') \<and>
     out ''staticFiles'' = Some (PDict sub) \<and>
     sub ''path'' = Some (PStr (''static_files/'' @ [CHR 0x5C, CHR ''1''])) \<and>
     sub ''uploadPathRegex'' = Some (PStr ''static_files/.*'') \<and>
     out ''staticDir'' = None) \<and>
   \<not> has_key [''urlRegex'' \<mapsto> PStr ''foo'', ''staticDir'' \<mapsto> PUnicode [233, 47, 47]]
       ''apiEndpoint'' \<and>
   (\<exists>h' out sub.
     ConvertUrlHandler [''urlRegex'' \<mapsto> PStr ''foo'', ''staticDir'' \<mapsto> PUnicode [233, 47, 47]]
       = (h', Inr out) \<and>
     out ''urlRegex'' = Some (PStr ''foo/(.*)'') \<and>
     out ''staticFiles'' = Some (PDict sub) \<and>
     sub ''path'' = Some (PUnicode [233, 47, 92, 49]) \<and>
     sub ''uploadPathRegex'' = Some (PUnicode [233, 47, 46, 42]))"
proof -
  let ?h = "[''urlRegex'' \<mapsto> PStr ''foo'', ''staticDir'' \<mapsto> PStr ''static_files//'']"
  let ?g = "[''urlRegex'' \<mapsto> PStr ''foo'', ''staticDir'' \<mapsto> PUnicode [233, 47, 47]]"
  have na: "\<not> has_key ?h ''apiEndpoint''" by (simp add: has_key_def)
  have d: "?h ''staticDir'' = Some (PStr ''static_files//'')" by simp
  have u: "?h ''urlRegex'' = Some (PStr ''foo'')" by simp
  have sd: "(\<exists>s. PStr ''static_files//'' = PStr s) \<or> (\<exists>s. PStr ''static_files//'' = PUnicode s)"
    by simp
  have su: "(\<exists>s. PStr ''foo'' = PStr s) \<or> (\<exists>s. PStr ''foo'' = PUnicode s)" by simp
  have r: "rstrip ''static_files//'' ''/'' = ''static_files''" "rstrip ''foo'' ''/'' = ''foo''"
    by (simp_all add: rstrip_def)
  from ConvertUrlHandler_staticDir_expansion [OF na d u sd su]
  obtain h' out sub where
    c: "ConvertUrlHandler ?h = (h', Inr out)" and
    o: "out ''staticFiles'' = Some (PDict sub)" and
    ub: "\<forall>u. PStr ''foo'' = PStr u \<longrightarrow>
        out ''urlRegex'' = Some (PStr (rstrip u ''/'' @ ''/(.*)''))" and
    db: "\<forall>d. PStr ''static_files//'' = PStr d \<longrightarrow>
        sub ''path'' = Some (PStr (rstrip d ''/'' @ ''/'' @ [CHR 0x5C, CHR ''1''])) \<and>
        sub ''uploadPathRegex'' = Some (PStr (rstrip d ''/'' @ ''/.*''))" and
    n: "out ''staticDir'' = None"
    by (elim exE conjE)
  from ub [THEN spec, THEN mp, OF refl] have 1: "out ''urlRegex'' = Some (PStr ''foo/(.*)'')"
    by (simp add: r)
  from db [THEN spec, THEN mp, OF refl]
  have 2: "sub ''path'' = Some (PStr (''static_files/'' @ [CHR 0x5C, CHR ''1'']))"
    and 3: "sub ''uploadPathRegex'' = Some (PStr ''static_files/.*'')"
    by (simp_all add: r)
  from c 1 o 2 3 n have A: "\<exists>h' out sub.
     ConvertUrlHandler ?h = (h', Inr out) \<and>
     out ''urlRegex'' = Some (PStr ''foo/(.*)'') \<and>
     out ''staticFiles'' = Some (PDict sub) \<and>
     sub ''path'' = Some (PStr (''static_files/'' @ [CHR 0x5C, CHR ''1''])) \<and>
     sub ''uploadPathRegex'' = Some (PStr ''static_files/.*'') \<and>
     out ''staticDir'' = None"
    by (intro exI conjI)
  have na': "\<not> has_key ?g ''apiEndpoint''" by (simp add: has_key_def)
  have d': "?g ''staticDir'' = Some (PUnicode [233, 47, 47])" by simp
  have u': "?g ''urlRegex'' = Some (PStr ''foo'')" by simp
  have sd': "(\<exists>s. PUnicode [233, 47, 47] = PStr s) \<or> (\<exists>s. PUnicode [233, 47, 47] = PUnicode s)"
    by simp
  from ConvertUrlHandler_staticDir_expansion [OF na' d' u' sd' su]
  obtain h'' out' sub' where
    c': "ConvertUrlHandler ?g = (h'', Inr out')" and
    o': "out' ''staticFiles'' = Some (PDict sub')" and
    ub': "\<forall>u. PStr ''foo'' = PStr u \<longrightarrow>
        out' ''urlRegex'' = Some (PStr (rstrip u ''/'' @ ''/(.*)''))" and
    du': "\<forall>d. PUnicode [233, 47, 47] = PUnicode d \<longrightarrow>
        sub' ''path'' =
          Some (PUnicode (rstrip d (decode_ascii ''/'') @
                          decode_ascii (''/'' @ [CHR 0x5C, CHR ''1'']))) \<and>
        sub' ''uploadPathRegex'' =
          Some (PUnicode (rstrip d (decode_ascii ''/'') @ decode_ascii ''/.*''))"
    by (elim exE conjE)
  from ub' [THEN spec, THEN mp, OF refl] have q1: "out' ''urlRegex'' = Some (PStr ''foo/(.*)'')"
    by (simp add: r)
  from du' [THEN spec, THEN mp, OF refl]
  have q2: "sub' ''path'' = Some (PUnicode [233, 47, 92, 49])"
    and q3: "sub' ''uploadPathRegex'' = Some (PUnicode [233, 47, 46, 42])"
    by (simp_all add: decode_ascii_def rstrip_def)
  from c' q1 o' q2 q3 have B: "\<exists>h' out sub.
     ConvertUrlHandler ?g = (h', Inr out) \<and>
     out ''urlRegex'' = Some (PStr ''foo/(.*)'') \<and>
     out ''staticFiles'' = Some (PDict sub) \<and>
     sub ''path'' = Some (PUnicode [233, 47, 92, 49]) \<and>
     sub ''uploadPathRegex'' = Some (PUnicode [233, 47, 46, 42])"
    by (intro exI conjI)
  from na A na' B show ?thesis by (intro conjI)
qed

text \<open>
  C2, as the code has it: \<^verbatim>\<open>ConvertUrlHandler\<close> returns for every handler whose
  resolved type is not \<^verbatim>\<open>staticDirectory\<close>, and whenever it returns, the record has
  exactly one of the three canonical type keys, holding a nested mapping; every
  common field of the input is at the top level with the input's value, except
  \<^verbatim>\<open>urlRegex\<close> when the type resolves to \<^verbatim>\<open>staticDirectory\<close>; and every field of the
  sub-message has the value of the input field of the same name, except \<^verbatim>\<open>path\<close> and
  \<^verbatim>\<open>uploadPathRegex\<close> when the type resolves to \<^verbatim>\<open>staticDirectory\<close> (the sugar
  expansion writes these three fields).
\<close>

theorem ConvertUrlHandler_restructuring:
  "(\<forall>t. GetHandlerType h = Inr t \<and> t \<noteq> ''staticDirectory'' \<longrightarrow>
      (\<exists>out. snd (ConvertUrlHandler h) = Inr out)) \<and>
   (\<forall>out. snd (ConvertUrlHandler h) = Inr out \<longrightarrow>
      (\<exists>t sub. t \<in> {''staticFiles'', ''script'', ''apiEndpoint''} \<and>
         out t = Some (PDict sub) \<and>
         (\<forall>t' \<in> {''staticFiles'', ''script'', ''apiEndpoint''}. has_key out t' \<longrightarrow> t' = t)) \<and>
      (\<forall>f \<in> set COMMON_HANDLER_FIELDS. \<forall>v. h f = Some v \<longrightarrow>
         (f = ''urlRegex'' \<and> GetHandlerType h = Inr ''staticDirectory'') \<or> out f = Some v) \<and>
      (\<forall>t \<in> {''staticFiles'', ''script'', ''apiEndpoint''}. \<forall>sub f v.
         out t = Some (PDict sub) \<and> sub f = Some v \<longrightarrow>
           h f = Some v \<or>
           (GetHandlerType h = Inr ''staticDirectory'' \<and> f \<in> {''path'', ''uploadPathRegex''})))"
proof (intro conjI allI impI)
  fix t assume "GetHandlerType h = Inr t \<and> t \<noteq> ''staticDirectory''"
  then have g: "GetHandlerType h = Inr t" and ns: "t \<noteq> ''staticDirectory''" by simp_all
  from GetHandlerType_cases [OF g] ns
  obtain fields where "HANDLER_FIELDS t = Some fields" by (auto simp: HANDLER_FIELDS_simps)
  then show "\<exists>out. snd (ConvertUrlHandler h) = Inr out"
    by (simp add: ConvertUrlHandler_other [OF g ns] restructure_eq)
next
  fix out assume r: "snd (ConvertUrlHandler h) = Inr out"
  from ConvertUrlHandler_returns [OF r] obtain t fields where
    t: "t \<in> {''staticFiles'', ''script'', ''apiEndpoint''}"
    and f: "HANDLER_FIELDS t = Some fields"
    and o: "restructure (fst (ConvertUrlHandler h)) t = Inr out"
    and c: "if GetHandlerType h = Inr ''staticDirectory''
      then t = ''staticFiles'' \<and>
           (\<exists>sd su p up ur.
              h ''staticDir'' = Some sd \<and> h ''urlRegex'' = Some su \<and>
              AppendRegexToPath sd [CHR 0x5C, CHR ''1''] = Inr p \<and>
              AppendRegexToPath sd ''.*'' = Inr up \<and>
              AppendRegexToPath su ''(.*)'' = Inr ur \<and>
              fst (ConvertUrlHandler h) =
                (h(''staticDir'' := None)) ++
                  [''path'' \<mapsto> p, ''uploadPathRegex'' \<mapsto> up, ''urlRegex'' \<mapsto> ur])
      else GetHandlerType h = Inr t \<and> fst (ConvertUrlHandler h) = h"
    by blast
  note k = restructure_type_key [OF f o t]
  show "\<exists>t sub. t \<in> {''staticFiles'', ''script'', ''apiEndpoint''} \<and>
         out t = Some (PDict sub) \<and>
         (\<forall>t' \<in> {''staticFiles'', ''script'', ''apiEndpoint''}. has_key out t' \<longrightarrow> t' = t)"
  proof (intro exI conjI ballI impI)
    show "t \<in> {''staticFiles'', ''script'', ''apiEndpoint''}" by (rule t)
    show "out t = Some (PDict (\<lambda>f. if f \<in> set fields \<and> has_key (fst (ConvertUrlHandler h)) f
            then fst (ConvertUrlHandler h) f else None))" by (rule k(1))
    fix t' assume "t' \<in> {''staticFiles'', ''script'', ''apiEndpoint''}" "has_key out t'"
    then show "t' = t" using k(2) [of t'] by (cases "t' = t") (simp_all add: has_key_def)
  qed
  show "\<forall>f \<in> set COMMON_HANDLER_FIELDS. \<forall>v. h f = Some v \<longrightarrow>
         (f = ''urlRegex'' \<and> GetHandlerType h = Inr ''staticDirectory'') \<or> out f = Some v"
  proof (intro ballI allI impI)
    fix f v assume fc: "f \<in> set COMMON_HANDLER_FIELDS" and v: "h f = Some v"
    show "(f = ''urlRegex'' \<and> GetHandlerType h = Inr ''staticDirectory'') \<or> out f = Some v"
    proof (cases "GetHandlerType h = Inr ''staticDirectory''")
      case False
      with c have "fst (ConvertUrlHandler h) = h" by simp
      with k(3) [OF fc] v show ?thesis by simp
    next
      case True
      from ConvertUrlHandler_returns_sugar [OF r True] obtain p up ur where
        "fst (ConvertUrlHandler h) =
                (h(''staticDir'' := None)) ++
                  [''path'' \<mapsto> p, ''uploadPathRegex'' \<mapsto> up, ''urlRegex'' \<mapsto> ur]"
        by blast
      with k(3) [OF fc] v fc True show ?thesis by (auto simp: COMMON_mem)
    qed
  qed
  show "\<forall>t \<in> {''staticFiles'', ''script'', ''apiEndpoint''}. \<forall>sub f v.
         out t = Some (PDict sub) \<and> sub f = Some v \<longrightarrow>
           h f = Some v \<or>
           (GetHandlerType h = Inr ''staticDirectory'' \<and> f \<in> {''path'', ''uploadPathRegex''})"
  proof (intro ballI allI impI)
    fix t' sub f v
    assume t': "t' \<in> {''staticFiles'', ''script'', ''apiEndpoint''}"
      and a: "out t' = Some (PDict sub) \<and> sub f = Some v"
    from a k(2) [OF t'] have tt: "t' = t" by auto
    with a k(1) have sub: "sub = (\<lambda>f. if f \<in> set fields \<and> has_key (fst (ConvertUrlHandler h)) f
            then fst (ConvertUrlHandler h) f else None)" by simp
    with a have ff: "f \<in> set fields" and fv: "fst (ConvertUrlHandler h) f = Some v"
      by (auto split: if_splits)
    show "h f = Some v \<or>
           (GetHandlerType h = Inr ''staticDirectory'' \<and> f \<in> {''path'', ''uploadPathRegex''})"
    proof (cases "GetHandlerType h = Inr ''staticDirectory''")
      case False
      with c fv show ?thesis by simp
    next
      case True
      with c have ts: "t = ''staticFiles''" by simp
      from ConvertUrlHandler_returns_sugar [OF r True] obtain p up ur where
        "fst (ConvertUrlHandler h) =
                (h(''staticDir'' := None)) ++
                  [''path'' \<mapsto> p, ''uploadPathRegex'' \<mapsto> up, ''urlRegex'' \<mapsto> ur]"
        by blast
      with ts fv ff f True show ?thesis
        by (auto simp: HANDLER_FIELDS_simps split: if_splits)
    qed
  qed
qed

text \<open>
  The direct case of the specification: a \<^verbatim>\<open>staticFiles\<close> handler keeps its
  \<^verbatim>\<open>urlRegex\<close>.
\<close>

theorem ConvertUrlHandler_restructuring_witness:
  "GetHandlerType [''urlRegex'' \<mapsto> PStr ''foo/bar.html'',
                   ''path'' \<mapsto> PStr ''static_files/foo/bar.html''] = Inr ''staticFiles'' \<and>
   ''urlRegex'' \<in> set COMMON_HANDLER_FIELDS \<and>
   (\<exists>out. snd (ConvertUrlHandler [''urlRegex'' \<mapsto> PStr ''foo/bar.html'',
                   ''path'' \<mapsto> PStr ''static_files/foo/bar.html'']) = Inr out \<and>
      out ''urlRegex'' = Some (PStr ''foo/bar.html'') \<and>
      (\<exists>t sub. t \<in> {''staticFiles'', ''script'', ''apiEndpoint''} \<and> out t = Some (PDict sub)))"
proof -
  let ?h = "[''urlRegex'' \<mapsto> PStr ''foo/bar.html'',
             ''path'' \<mapsto> PStr ''static_files/foo/bar.html'']"
  have g: "GetHandlerType ?h = Inr ''staticFiles''"
    by (simp add: GetHandlerType_def has_key_def)
  have c: "''urlRegex'' \<in> set COMMON_HANDLER_FIELDS" by (simp add: COMMON_mem)
  have u: "?h ''urlRegex'' = Some (PStr ''foo/bar.html'')" by simp
  note th = ConvertUrlHandler_restructuring [of ?h]
  from th have "GetHandlerType ?h = Inr ''staticFiles'' \<and> ''staticFiles'' \<noteq> ''staticDirectory'' \<longrightarrow>
      (\<exists>out. snd (ConvertUrlHandler ?h) = Inr out)" by (elim conjE allE)
  with g obtain out where r: "snd (ConvertUrlHandler ?h) = Inr out" by auto
  from th r have
    cm: "\<forall>f \<in> set COMMON_HANDLER_FIELDS. \<forall>v. ?h f = Some v \<longrightarrow>
         (f = ''urlRegex'' \<and> GetHandlerType ?h = Inr ''staticDirectory'') \<or> out f = Some v"
    and ty: "\<exists>t sub. t \<in> {''staticFiles'', ''script'', ''apiEndpoint''} \<and>
         out t = Some (PDict sub) \<and>
         (\<forall>t' \<in> {''staticFiles'', ''script'', ''apiEndpoint''}. has_key out t' \<longrightarrow> t' = t)"
    by blast+
  from cm c u have "(''urlRegex'' = ''urlRegex'' \<and> GetHandlerType ?h = Inr ''staticDirectory'') \<or>
      out ''urlRegex'' = Some (PStr ''foo/bar.html'')" by blast
  with g have "out ''urlRegex'' = Some (PStr ''foo/bar.html'')" by simp
  moreover from ty
  have "\<exists>t sub. t \<in> {''staticFiles'', ''script'', ''apiEndpoint''} \<and> out t = Some (PDict sub)"
    by blast
  ultimately show ?thesis using g c r by blast
qed

text \<open>
  C2 as stated fails on the sugar example of the specification: the input
  \<^verbatim>\<open>{'urlRegex': 'foo', 'staticDir': 'static_files'}\<close> has the common field
  \<^verbatim>\<open>urlRegex\<close> equal to \<^verbatim>\<open>foo\<close> and no field \<^verbatim>\<open>path\<close> or \<^verbatim>\<open>uploadPathRegex\<close>; the
  output has \<^verbatim>\<open>urlRegex\<close> equal to \<^verbatim>\<open>foo/(.*)\<close>, and its sub-message has \<^verbatim>\<open>path\<close> and
  \<^verbatim>\<open>uploadPathRegex\<close>. The first component is the input dictionary after the call.
\<close>

theorem ConvertUrlHandler_restructuring_counterexample:
  "ConvertUrlHandler [''urlRegex'' \<mapsto> PStr ''foo'', ''staticDir'' \<mapsto> PStr ''static_files''] =
   ([''urlRegex'' \<mapsto> PStr ''foo/(.*)'',
     ''path'' \<mapsto> PStr (''static_files/'' @ [CHR 0x5C, CHR ''1'']),
     ''uploadPathRegex'' \<mapsto> PStr ''static_files/.*''],
    Inr [''urlRegex'' \<mapsto> PStr ''foo/(.*)'',
         ''staticFiles'' \<mapsto>
           PDict [''path'' \<mapsto> PStr (''static_files/'' @ [CHR 0x5C, CHR ''1'']),
                  ''uploadPathRegex'' \<mapsto> PStr ''static_files/.*'']]) \<and>
   PStr ''foo/(.*)'' \<noteq> PStr ''foo'' \<and>
   [''urlRegex'' \<mapsto> PStr ''foo'', ''staticDir'' \<mapsto> PStr ''static_files''] ''path'' = None"
proof -
  let ?h = "[''urlRegex'' \<mapsto> PStr ''foo'', ''staticDir'' \<mapsto> PStr ''static_files'']"
  let ?h' = "[''urlRegex'' \<mapsto> PStr ''foo/(.*)'',
     ''path'' \<mapsto> PStr (''static_files/'' @ [CHR 0x5C, CHR ''1'']),
     ''uploadPathRegex'' \<mapsto> PStr ''static_files/.*'']"
  let ?sub = "[''path'' \<mapsto> PStr (''static_files/'' @ [CHR 0x5C, CHR ''1'']),
              ''uploadPathRegex'' \<mapsto> PStr ''static_files/.*'']"
  have na: "\<not> has_key ?h ''apiEndpoint''" by (simp add: has_key_def)
  have d: "?h ''staticDir'' = Some (PStr ''static_files'')" by simp
  have u: "?h ''urlRegex'' = Some (PStr ''foo'')" by simp
  have r: "rstrip ''static_files'' ''/'' = ''static_files''" "rstrip ''foo'' ''/'' = ''foo''"
    by (simp_all add: rstrip_def)
  have h': "(?h(''staticDir'' := None)) ++
        [''path'' \<mapsto> PStr (rstrip ''static_files'' ''/'' @ ''/'' @ [CHR 0x5C, CHR ''1'']),
         ''uploadPathRegex'' \<mapsto> PStr (rstrip ''static_files'' ''/'' @ ''/.*''),
         ''urlRegex'' \<mapsto> PStr (rstrip ''foo'' ''/'' @ ''/(.*)'')] = ?h'"
    unfolding r by (rule ext) simp
  have sub: "(\<lambda>f. if f \<in> set [''path'', ''uploadPathRegex'', ''httpHeaders'', ''expiration'',
           ''applicationReadable'', ''mimeType'', ''requireMatchingFile''] \<and> has_key ?h' f
         then ?h' f else None) = ?sub"
    by (rule ext) (simp add: has_key_def)
  have out: "restructure ?h' ''staticFiles'' =
      Inr [''urlRegex'' \<mapsto> PStr ''foo/(.*)'', ''staticFiles'' \<mapsto> PDict ?sub]"
    unfolding restructure_eq [OF HANDLER_FIELDS_simps(1)] sub
    by (simp add: fun_eq_iff COMMON_mem has_key_def)
  have "ConvertUrlHandler ?h =
      (?h', Inr [''urlRegex'' \<mapsto> PStr ''foo/(.*)'', ''staticFiles'' \<mapsto> PDict ?sub])"
    unfolding sugar_closed_form [OF na d u] h' out ..
  then show ?thesis by simp
qed

text \<open>
  C8, as the code has it: the dictionary passed to \<^verbatim>\<open>ConvertUrlHandler\<close> is changed
  exactly when the handler resolves to \<^verbatim>\<open>staticDirectory\<close> and the call returns (a
  call that raises leaves it as it was, since every exception is raised before the
  \<^verbatim>\<open>del\<close>). In that case \<^verbatim>\<open>staticDir\<close> is deleted, \<^verbatim>\<open>path\<close>, \<^verbatim>\<open>uploadPathRegex\<close> and
  \<^verbatim>\<open>urlRegex\<close> are written with the values of the sugar expansion, and every other
  key keeps its value. For a handler of any other type the dictionary is unchanged.
  The third conjunct gives the written values for byte strings, and the last one says
  when a \<^verbatim>\<open>staticDirectory\<close> call returns: exactly when \<^verbatim>\<open>staticDir\<close> and \<^verbatim>\<open>urlRegex\<close>
  are both present and strings (of either kind).
\<close>

theorem ConvertUrlHandler_mutation:
  "(fst (ConvertUrlHandler h) \<noteq> h \<longleftrightarrow>
      GetHandlerType h = Inr ''staticDirectory'' \<and>
      (\<exists>out. snd (ConvertUrlHandler h) = Inr out)) \<and>
   (GetHandlerType h = Inr ''staticDirectory'' \<and> (\<exists>out. snd (ConvertUrlHandler h) = Inr out) \<longrightarrow>
      (\<exists>sd su p up ur.
         h ''staticDir'' = Some sd \<and> h ''urlRegex'' = Some su \<and>
         AppendRegexToPath sd [CHR 0x5C, CHR ''1''] = Inr p \<and>
         AppendRegexToPath sd ''.*'' = Inr up \<and>
         AppendRegexToPath su ''(.*)'' = Inr ur \<and>
         fst (ConvertUrlHandler h) ''staticDir'' = None \<and>
         fst (ConvertUrlHandler h) ''path'' = Some p \<and>
         fst (ConvertUrlHandler h) ''uploadPathRegex'' = Some up \<and>
         fst (ConvertUrlHandler h) ''urlRegex'' = Some ur \<and>
         (\<forall>k. k \<notin> {''staticDir'', ''path'', ''uploadPathRegex'', ''urlRegex''} \<longrightarrow>
            fst (ConvertUrlHandler h) k = h k))) \<and>
   (\<forall>d u. GetHandlerType h = Inr ''staticDirectory'' \<and>
      h ''staticDir'' = Some (PStr d) \<and> h ''urlRegex'' = Some (PStr u) \<longrightarrow>
        (\<exists>out. snd (ConvertUrlHandler h) = Inr out) \<and>
        fst (ConvertUrlHandler h) ''staticDir'' = None \<and>
        fst (ConvertUrlHandler h) ''path'' =
          Some (PStr (rstrip d ''/'' @ ''/'' @ [CHR 0x5C, CHR ''1''])) \<and>
        fst (ConvertUrlHandler h) ''uploadPathRegex'' = Some (PStr (rstrip d ''/'' @ ''/.*'')) \<and>
        fst (ConvertUrlHandler h) ''urlRegex'' = Some (PStr (rstrip u ''/'' @ ''/(.*)''))) \<and>
   (GetHandlerType h = Inr ''staticDirectory'' \<longrightarrow>
      ((\<exists>out. snd (ConvertUrlHandler h) = Inr out) \<longleftrightarrow>
       (\<exists>sd su. h ''staticDir'' = Some sd \<and> h ''urlRegex'' = Some su \<and>
          ((\<exists>s. sd = PStr s) \<or> (\<exists>s. sd = PUnicode s)) \<and>
          ((\<exists>s. su = PStr s) \<or> (\<exists>s. su = PUnicode s)))))"
proof -
  have fwd: "GetHandlerType h = Inr ''staticDirectory'' \<and>
      (\<exists>out. snd (ConvertUrlHandler h) = Inr out)" if ne: "fst (ConvertUrlHandler h) \<noteq> h"
  proof (cases "snd (ConvertUrlHandler h)")
    case (Inl e)
    with ne show ?thesis by (simp add: ConvertUrlHandler_fail_unchanged)
  next
    case (Inr out)
    from ConvertUrlHandler_returns [OF Inr] obtain t where
      c: "if GetHandlerType h = Inr ''staticDirectory''
      then t = ''staticFiles'' \<and>
           (\<exists>sd su p up ur.
              h ''staticDir'' = Some sd \<and> h ''urlRegex'' = Some su \<and>
              AppendRegexToPath sd [CHR 0x5C, CHR ''1''] = Inr p \<and>
              AppendRegexToPath sd ''.*'' = Inr up \<and>
              AppendRegexToPath su ''(.*)'' = Inr ur \<and>
              fst (ConvertUrlHandler h) =
                (h(''staticDir'' := None)) ++
                  [''path'' \<mapsto> p, ''uploadPathRegex'' \<mapsto> up, ''urlRegex'' \<mapsto> ur])
      else GetHandlerType h = Inr t \<and> fst (ConvertUrlHandler h) = h"
      by blast
    have "GetHandlerType h = Inr ''staticDirectory''"
    proof (rule ccontr)
      assume "GetHandlerType h \<noteq> Inr ''staticDirectory''"
      with c have "fst (ConvertUrlHandler h) = h" by simp
      with ne show False ..
    qed
    with Inr show ?thesis by simp
  qed
  have bwd: "\<exists>sd su p up ur.
         h ''staticDir'' = Some sd \<and> h ''urlRegex'' = Some su \<and>
         AppendRegexToPath sd [CHR 0x5C, CHR ''1''] = Inr p \<and>
         AppendRegexToPath sd ''.*'' = Inr up \<and>
         AppendRegexToPath su ''(.*)'' = Inr ur \<and>
         fst (ConvertUrlHandler h) =
           (h(''staticDir'' := None)) ++
             [''path'' \<mapsto> p, ''uploadPathRegex'' \<mapsto> up, ''urlRegex'' \<mapsto> ur]"
    if a: "GetHandlerType h = Inr ''staticDirectory'' \<and>
      (\<exists>out. snd (ConvertUrlHandler h) = Inr out)"
  proof -
    from a obtain out where r: "snd (ConvertUrlHandler h) = Inr out" by blast
    from a have g: "GetHandlerType h = Inr ''staticDirectory''" by simp
    show ?thesis by (rule ConvertUrlHandler_returns_sugar [OF r g])
  qed
  have neq: "fst (ConvertUrlHandler h) \<noteq> h"
    if a: "GetHandlerType h = Inr ''staticDirectory'' \<and>
      (\<exists>out. snd (ConvertUrlHandler h) = Inr out)"
  proof -
    from bwd [OF a] obtain sd p up ur where d: "h ''staticDir'' = Some sd" and
      e: "fst (ConvertUrlHandler h) =
           (h(''staticDir'' := None)) ++
             [''path'' \<mapsto> p, ''uploadPathRegex'' \<mapsto> up, ''urlRegex'' \<mapsto> ur]"
      by (elim exE conjE)
    from e have "fst (ConvertUrlHandler h) ''staticDir'' = None" by simp
    with d show ?thesis by auto
  qed
  have upd: "\<exists>sd su p up ur.
         h ''staticDir'' = Some sd \<and> h ''urlRegex'' = Some su \<and>
         AppendRegexToPath sd [CHR 0x5C, CHR ''1''] = Inr p \<and>
         AppendRegexToPath sd ''.*'' = Inr up \<and>
         AppendRegexToPath su ''(.*)'' = Inr ur \<and>
         fst (ConvertUrlHandler h) ''staticDir'' = None \<and>
         fst (ConvertUrlHandler h) ''path'' = Some p \<and>
         fst (ConvertUrlHandler h) ''uploadPathRegex'' = Some up \<and>
         fst (ConvertUrlHandler h) ''urlRegex'' = Some ur \<and>
         (\<forall>k. k \<notin> {''staticDir'', ''path'', ''uploadPathRegex'', ''urlRegex''} \<longrightarrow>
            fst (ConvertUrlHandler h) k = h k)"
    if a: "GetHandlerType h = Inr ''staticDirectory'' \<and>
      (\<exists>out. snd (ConvertUrlHandler h) = Inr out)"
  proof -
    from bwd [OF a] obtain sd su p up ur where
      s: "h ''staticDir'' = Some sd" "h ''urlRegex'' = Some su"
        "AppendRegexToPath sd [CHR 0x5C, CHR ''1''] = Inr p"
        "AppendRegexToPath sd ''.*'' = Inr up"
        "AppendRegexToPath su ''(.*)'' = Inr ur"
      and e: "fst (ConvertUrlHandler h) =
           (h(''staticDir'' := None)) ++
             [''path'' \<mapsto> p, ''uploadPathRegex'' \<mapsto> up, ''urlRegex'' \<mapsto> ur]"
      by (elim exE conjE)
    show ?thesis
      unfolding e using s
      by (intro exI [of _ sd] exI [of _ su] exI [of _ p] exI [of _ up] exI [of _ ur]) simp
  qed
  have bytes: "(\<exists>out. snd (ConvertUrlHandler h) = Inr out) \<and>
        fst (ConvertUrlHandler h) ''staticDir'' = None \<and>
        fst (ConvertUrlHandler h) ''path'' =
          Some (PStr (rstrip d ''/'' @ ''/'' @ [CHR 0x5C, CHR ''1''])) \<and>
        fst (ConvertUrlHandler h) ''uploadPathRegex'' = Some (PStr (rstrip d ''/'' @ ''/.*'')) \<and>
        fst (ConvertUrlHandler h) ''urlRegex'' = Some (PStr (rstrip u ''/'' @ ''/(.*)''))"
    if a: "GetHandlerType h = Inr ''staticDirectory'' \<and>
      h ''staticDir'' = Some (PStr d) \<and> h ''urlRegex'' = Some (PStr u)" for d u
  proof -
    from a have g: "GetHandlerType h = Inr ''staticDirectory''"
      and d: "h ''staticDir'' = Some (PStr d)" and u: "h ''urlRegex'' = Some (PStr u)"
      by simp_all
    from g have na: "\<not> has_key h ''apiEndpoint''" by (simp add: GetHandlerType_sugar_iff)
    show ?thesis
      by (simp add: sugar_closed_form [OF na d u] restructure_eq [OF HANDLER_FIELDS_simps(1)])
  qed
  have strings: "(\<exists>out. snd (ConvertUrlHandler h) = Inr out) \<longleftrightarrow>
       (\<exists>sd su. h ''staticDir'' = Some sd \<and> h ''urlRegex'' = Some su \<and>
          ((\<exists>s. sd = PStr s) \<or> (\<exists>s. sd = PUnicode s)) \<and>
          ((\<exists>s. su = PStr s) \<or> (\<exists>s. su = PUnicode s)))"
    (is "?ret \<longleftrightarrow> ?str")
    if g: "GetHandlerType h = Inr ''staticDirectory''"
  proof
    assume ?ret
    with g have a: "GetHandlerType h = Inr ''staticDirectory'' \<and>
      (\<exists>out. snd (ConvertUrlHandler h) = Inr out)" by (intro conjI)
    from bwd [OF a] obtain sd su p ur where
      s: "h ''staticDir'' = Some sd" "h ''urlRegex'' = Some su"
      and p: "AppendRegexToPath sd [CHR 0x5C, CHR ''1''] = Inr p"
      and ur: "AppendRegexToPath su ''(.*)'' = Inr ur"
      by (elim exE conjE)
    from s AppendRegexToPath_Inr [OF p] AppendRegexToPath_Inr [OF ur]
    show ?str by (intro exI conjI)
  next
    assume ?str
    then obtain sd su where s: "h ''staticDir'' = Some sd" "h ''urlRegex'' = Some su"
      and sd: "(\<exists>s. sd = PStr s) \<or> (\<exists>s. sd = PUnicode s)"
      and su: "(\<exists>s. su = PStr s) \<or> (\<exists>s. su = PUnicode s)"
      by blast
    from AppendRegexToPath_string [OF sd] obtain p where
      p: "AppendRegexToPath sd [CHR 0x5C, CHR ''1''] = Inr p" by blast
    from AppendRegexToPath_string [OF sd] obtain up where
      up: "AppendRegexToPath sd ''.*'' = Inr up" by blast
    from AppendRegexToPath_string [OF su] obtain ur where
      ur: "AppendRegexToPath su ''(.*)'' = Inr ur" by blast
    from sugar_returns [OF g static_dir_tmp_eq [OF s p up ur]] show ?ret .
  qed
  from fwd neq have 1: "fst (ConvertUrlHandler h) \<noteq> h \<longleftrightarrow>
      GetHandlerType h = Inr ''staticDirectory'' \<and>
      (\<exists>out. snd (ConvertUrlHandler h) = Inr out)" by blast
  from upd have 2: "GetHandlerType h = Inr ''staticDirectory'' \<and>
      (\<exists>out. snd (ConvertUrlHandler h) = Inr out) \<longrightarrow>
      (\<exists>sd su p up ur.
         h ''staticDir'' = Some sd \<and> h ''urlRegex'' = Some su \<and>
         AppendRegexToPath sd [CHR 0x5C, CHR ''1''] = Inr p \<and>
         AppendRegexToPath sd ''.*'' = Inr up \<and>
         AppendRegexToPath su ''(.*)'' = Inr ur \<and>
         fst (ConvertUrlHandler h) ''staticDir'' = None \<and>
         fst (ConvertUrlHandler h) ''path'' = Some p \<and>
         fst (ConvertUrlHandler h) ''uploadPathRegex'' = Some up \<and>
         fst (ConvertUrlHandler h) ''urlRegex'' = Some ur \<and>
         (\<forall>k. k \<notin> {''staticDir'', ''path'', ''uploadPathRegex'', ''urlRegex''} \<longrightarrow>
            fst (ConvertUrlHandler h) k = h k))" by (rule impI)
  from bytes have 3: "\<forall>d u. GetHandlerType h = Inr ''staticDirectory'' \<and>
      h ''staticDir'' = Some (PStr d) \<and> h ''urlRegex'' = Some (PStr u) \<longrightarrow>
        (\<exists>out. snd (ConvertUrlHandler h) = Inr out) \<and>
        fst (ConvertUrlHandler h) ''staticDir'' = None \<and>
        fst (ConvertUrlHandler h) ''path'' =
          Some (PStr (rstrip d ''/'' @ ''/'' @ [CHR 0x5C, CHR ''1''])) \<and>
        fst (ConvertUrlHandler h) ''uploadPathRegex'' = Some (PStr (rstrip d ''/'' @ ''/.*'')) \<and>
        fst (ConvertUrlHandler h) ''urlRegex'' = Some (PStr (rstrip u ''/'' @ ''/(.*)''))"
    by (intro allI impI)
  from strings have 4: "GetHandlerType h = Inr ''staticDirectory'' \<longrightarrow>
      ((\<exists>out. snd (ConvertUrlHandler h) = Inr out) \<longleftrightarrow>
       (\<exists>sd su. h ''staticDir'' = Some sd \<and> h ''urlRegex'' = Some su \<and>
          ((\<exists>s. sd = PStr s) \<or> (\<exists>s. sd = PUnicode s)) \<and>
          ((\<exists>s. su = PStr s) \<or> (\<exists>s. su = PUnicode s))))" by (rule impI)
  from 1 2 3 4 show ?thesis by (intro conjI)
qed

theorem ConvertUrlHandler_mutation_witness:
  "GetHandlerType [''urlRegex'' \<mapsto> PStr ''foo'', ''staticDir'' \<mapsto> PStr ''static_files'']
     = Inr ''staticDirectory'' \<and>
   fst (ConvertUrlHandler [''urlRegex'' \<mapsto> PStr ''foo'', ''staticDir'' \<mapsto> PStr ''static_files''])
     \<noteq> [''urlRegex'' \<mapsto> PStr ''foo'', ''staticDir'' \<mapsto> PStr ''static_files''] \<and>
   fst (ConvertUrlHandler [''urlRegex'' \<mapsto> PStr ''foo'', ''staticDir'' \<mapsto> PStr ''static_files''])
     ''staticDir'' = None \<and>
   fst (ConvertUrlHandler [''urlRegex'' \<mapsto> PStr ''foo'', ''staticDir'' \<mapsto> PStr ''static_files''])
     ''urlRegex'' = Some (PStr ''foo/(.*)'') \<and>
   GetHandlerType [''scriptPath'' \<mapsto> PStr ''main.app''] = Inr ''script'' \<and>
   fst (ConvertUrlHandler [''scriptPath'' \<mapsto> PStr ''main.app'']) =
     [''scriptPath'' \<mapsto> PStr ''main.app'']"
proof -
  let ?h = "[''urlRegex'' \<mapsto> PStr ''foo'', ''staticDir'' \<mapsto> PStr ''static_files'']"
  let ?s = "[''scriptPath'' \<mapsto> PStr ''main.app'']"
  have d: "?h ''staticDir'' = Some (PStr ''static_files'')" by simp
  have u: "?h ''urlRegex'' = Some (PStr ''foo'')" by simp
  have g: "GetHandlerType ?h = Inr ''staticDirectory''"
    by (simp add: GetHandlerType_def has_key_def)
  have gs: "GetHandlerType ?s = Inr ''script''"
    by (simp add: GetHandlerType_def has_key_def)
  note th = ConvertUrlHandler_mutation [of ?h]
  from g d u have hyp: "GetHandlerType ?h = Inr ''staticDirectory'' \<and>
      ?h ''staticDir'' = Some (PStr ''static_files'') \<and> ?h ''urlRegex'' = Some (PStr ''foo'')"
    by (intro conjI)
  note b = th [THEN conjunct2, THEN conjunct2, THEN conjunct1, THEN spec, THEN spec, THEN mp,
               OF hyp]
  note r = b [THEN conjunct1]
  note del = b [THEN conjunct2, THEN conjunct1]
  note url' = b [THEN conjunct2, THEN conjunct2, THEN conjunct2, THEN conjunct2]
  from url' have url: "fst (ConvertUrlHandler ?h) ''urlRegex'' = Some (PStr ''foo/(.*)'')"
    by (simp add: rstrip_def)
  from th [THEN conjunct1] g r have ne: "fst (ConvertUrlHandler ?h) \<noteq> ?h" by simp
  from ConvertUrlHandler_mutation [of ?s, THEN conjunct1] gs
  have "fst (ConvertUrlHandler ?s) = ?s" by simp
  with g ne del url gs show ?thesis by (intro conjI)
qed

text \<open>
  C8 as stated fails on \<^verbatim>\<open>{'staticDir': 'static_files'}\<close>: the handler resolves to
  \<^verbatim>\<open>staticDirectory\<close>, the subscript \<^verbatim>\<open>handler['urlRegex']\<close> raises \<^verbatim>\<open>KeyError\<close>, and
  the dictionary still holds \<^verbatim>\<open>staticDir\<close> and nothing else.
\<close>

theorem ConvertUrlHandler_mutation_counterexample:
  "GetHandlerType [''staticDir'' \<mapsto> PStr ''static_files''] = Inr ''staticDirectory'' \<and>
   ConvertUrlHandler [''staticDir'' \<mapsto> PStr ''static_files''] =
     ([''staticDir'' \<mapsto> PStr ''static_files''], Inl (KeyError ''urlRegex''))"
proof -
  let ?h = "[''staticDir'' \<mapsto> PStr ''static_files'']"
  have g: "GetHandlerType ?h = Inr ''staticDirectory''"
    by (simp add: GetHandlerType_def has_key_def)
  have t: "static_dir_tmp ?h = Inl (KeyError ''urlRegex'')"
    by (rule static_dir_tmp_no_url [where d = "''static_files''"]) simp_all
  from g ConvertUrlHandler_sugar_fail [OF g t] show ?thesis by simp
qed

text \<open>
  C9: a returned record has exactly one of the three type keys, holding a nested
  mapping (also when that mapping is empty); the allowlists of \<^verbatim>\<open>apiEndpoint\<close> and
  \<^verbatim>\<open>script\<close> hold \<^verbatim>\<open>scriptPath\<close> only, so for a handler with \<^verbatim>\<open>apiEndpoint\<close> the
  sub-message is the \<^verbatim>\<open>scriptPath\<close> entry of the input (if any), the other keys are
  the common fields of the input, and the outcome does not depend on the value of
  \<^verbatim>\<open>apiEndpoint\<close>. In particular \<^verbatim>\<open>{'apiEndpoint': v}\<close> gives
  \<^verbatim>\<open>{'apiEndpoint': {}}\<close>.
\<close>

theorem ConvertUrlHandler_type_key:
  "(\<forall>out. snd (ConvertUrlHandler h) = Inr out \<longrightarrow>
      (\<exists>t sub. t \<in> {''staticFiles'', ''script'', ''apiEndpoint''} \<and> out t = Some (PDict sub) \<and>
         (\<forall>t' \<in> {''staticFiles'', ''script'', ''apiEndpoint''}. has_key out t' \<longrightarrow> t' = t))) \<and>
   HANDLER_FIELDS ''apiEndpoint'' = Some [''scriptPath''] \<and>
   HANDLER_FIELDS ''script'' = Some [''scriptPath''] \<and>
   (has_key h ''apiEndpoint'' \<longrightarrow>
      (\<exists>out sub. ConvertUrlHandler h = (h, Inr out) \<and>
         out ''apiEndpoint'' = Some (PDict sub) \<and>
         (\<forall>f. sub f = (if f = ''scriptPath'' then h ''scriptPath'' else None)) \<and>
         (\<forall>k. k \<noteq> ''apiEndpoint'' \<longrightarrow>
            out k = (if k \<in> set COMMON_HANDLER_FIELDS then h k else None)))) \<and>
   snd (ConvertUrlHandler (h(''apiEndpoint'' \<mapsto> v))) =
     snd (ConvertUrlHandler (h(''apiEndpoint'' \<mapsto> v'))) \<and>
   ConvertUrlHandler [''apiEndpoint'' \<mapsto> v] =
     ([''apiEndpoint'' \<mapsto> v], Inr [''apiEndpoint'' \<mapsto> PDict Map.empty])"
proof -
  have one: "\<exists>t sub. t \<in> {''staticFiles'', ''script'', ''apiEndpoint''} \<and>
         out t = Some (PDict sub) \<and>
         (\<forall>t' \<in> {''staticFiles'', ''script'', ''apiEndpoint''}. has_key out t' \<longrightarrow> t' = t)"
    if r: "snd (ConvertUrlHandler h) = Inr out" for out
  proof -
    from ConvertUrlHandler_returns [OF r] obtain t fields where
      t: "t \<in> {''staticFiles'', ''script'', ''apiEndpoint''}"
      and f: "HANDLER_FIELDS t = Some fields"
      and o: "restructure (fst (ConvertUrlHandler h)) t = Inr out"
      by blast
    note k = restructure_type_key [OF f o t]
    have "\<forall>t' \<in> {''staticFiles'', ''script'', ''apiEndpoint''}. has_key out t' \<longrightarrow> t' = t"
    proof (intro ballI impI)
      fix t' assume "t' \<in> {''staticFiles'', ''script'', ''apiEndpoint''}" "has_key out t'"
      then show "t' = t" using k(2) [of t'] by (cases "t' = t") (simp_all add: has_key_def)
    qed
    with t k(1) show ?thesis by blast
  qed
  have api: "\<exists>out sub. ConvertUrlHandler h = (h, Inr out) \<and>
         out ''apiEndpoint'' = Some (PDict sub) \<and>
         (\<forall>f. sub f = (if f = ''scriptPath'' then h ''scriptPath'' else None)) \<and>
         (\<forall>k. k \<noteq> ''apiEndpoint'' \<longrightarrow>
            out k = (if k \<in> set COMMON_HANDLER_FIELDS then h k else None))"
    if a: "has_key h ''apiEndpoint''"
    unfolding apiEndpoint_closed_form [OF a]
    by (auto simp: COMMON_mem has_key_def)
  have indep: "snd (ConvertUrlHandler (h(''apiEndpoint'' \<mapsto> v))) =
     snd (ConvertUrlHandler (h(''apiEndpoint'' \<mapsto> v')))"
  proof -
    have a: "has_key (h(''apiEndpoint'' \<mapsto> w)) ''apiEndpoint''" for w
      by (simp add: has_key_def)
    show ?thesis
      unfolding apiEndpoint_closed_form [OF a]
      by (auto simp: COMMON_mem has_key_def fun_eq_iff)
  qed
  have ex: "ConvertUrlHandler [''apiEndpoint'' \<mapsto> v] =
     ([''apiEndpoint'' \<mapsto> v], Inr [''apiEndpoint'' \<mapsto> PDict Map.empty])"
  proof -
    have a: "has_key [''apiEndpoint'' \<mapsto> v] ''apiEndpoint''" by (simp add: has_key_def)
    show ?thesis
      unfolding apiEndpoint_closed_form [OF a]
      by (auto simp: COMMON_mem has_key_def fun_eq_iff)
  qed
  from one api indep ex show ?thesis
    by (simp add: HANDLER_FIELDS_simps)
qed

theorem ConvertUrlHandler_type_key_witness:
  "has_key [''apiEndpoint'' \<mapsto> PStr ''x'', ''login'' \<mapsto> PStr ''admin''] ''apiEndpoint'' \<and>
   (\<exists>out sub.
      ConvertUrlHandler [''apiEndpoint'' \<mapsto> PStr ''x'', ''login'' \<mapsto> PStr ''admin''] =
        ([''apiEndpoint'' \<mapsto> PStr ''x'', ''login'' \<mapsto> PStr ''admin''], Inr out) \<and>
      out ''apiEndpoint'' = Some (PDict sub) \<and> sub ''scriptPath'' = None \<and>
      sub ''apiEndpoint'' = None \<and> out ''login'' = Some (PStr ''admin'') \<and>
      out ''staticFiles'' = None \<and> out ''script'' = None) \<and>
   ConvertUrlHandler [''apiEndpoint'' \<mapsto> PInt 1] =
     ([''apiEndpoint'' \<mapsto> PInt 1], Inr [''apiEndpoint'' \<mapsto> PDict Map.empty])"
proof -
  let ?h = "[''apiEndpoint'' \<mapsto> PStr ''x'', ''login'' \<mapsto> PStr ''admin'']"
  have a: "has_key ?h ''apiEndpoint''" by (simp add: has_key_def)
  note th = ConvertUrlHandler_type_key [of ?h "PInt 1" "PInt 1"]
  note api = th [THEN conjunct2, THEN conjunct2, THEN conjunct2, THEN conjunct1, THEN mp, OF a]
  note ex = th [THEN conjunct2, THEN conjunct2, THEN conjunct2, THEN conjunct2, THEN conjunct2]
  from api obtain out sub where
    c: "ConvertUrlHandler ?h = (?h, Inr out)" and
    o: "out ''apiEndpoint'' = Some (PDict sub)" and
    s: "\<forall>f. sub f = (if f = ''scriptPath'' then ?h ''scriptPath'' else None)" and
    k: "\<forall>k. k \<noteq> ''apiEndpoint'' \<longrightarrow>
            out k = (if k \<in> set COMMON_HANDLER_FIELDS then ?h k else None)"
    by (elim exE conjE)
  from s have s1: "sub ''scriptPath'' = None" and s2: "sub ''apiEndpoint'' = None" by simp_all
  from k have k1: "out ''login'' = Some (PStr ''admin'')" and k2: "out ''staticFiles'' = None"
    and k3: "out ''script'' = None"
    by (simp_all add: COMMON_mem)
  have "\<exists>out sub.
      ConvertUrlHandler ?h = (?h, Inr out) \<and>
      out ''apiEndpoint'' = Some (PDict sub) \<and> sub ''scriptPath'' = None \<and>
      sub ''apiEndpoint'' = None \<and> out ''login'' = Some (PStr ''admin'') \<and>
      out ''staticFiles'' = None \<and> out ''script'' = None"
    using c o s1 s2 k1 k2 k3 by (intro exI conjI)
  with a ex show ?thesis by (intro conjI)
qed

text \<open>
  C10: for a handler with \<^verbatim>\<open>staticDir\<close> and without \<^verbatim>\<open>apiEndpoint\<close> whose
  \<^verbatim>\<open>staticDir\<close> is a string (of either kind), the call returns, and raises no
  \<^verbatim>\<open>KeyError\<close>, when \<^verbatim>\<open>urlRegex\<close> is present and a string (of either kind); when
  \<^verbatim>\<open>urlRegex\<close> is absent the call raises \<^verbatim>\<open>KeyError('urlRegex')\<close>, which is not a
  \<^verbatim>\<open>ValueError\<close> (the only error type of the documented taxonomy), and leaves the
  input as it was.
\<close>

theorem sugar_expansion_missing_key:
  assumes na: "\<not> has_key h ''apiEndpoint''"
    and d: "h ''staticDir'' = Some sd"
    and sd: "(\<exists>s. sd = PStr s) \<or> (\<exists>s. sd = PUnicode s)"
  shows "(\<forall>su. h ''urlRegex'' = Some su \<and> ((\<exists>s. su = PStr s) \<or> (\<exists>s. su = PUnicode s)) \<longrightarrow>
            (\<exists>out. snd (ConvertUrlHandler h) = Inr out) \<and>
            (\<forall>k. snd (ConvertUrlHandler h) \<noteq> Inl (KeyError k))) \<and>
         (\<not> has_key h ''urlRegex'' \<longrightarrow>
            ConvertUrlHandler h = (h, Inl (KeyError ''urlRegex'')) \<and>
            (\<forall>m. KeyError ''urlRegex'' \<noteq> ValueError m))"
proof (intro conjI allI impI)
  fix su
  assume a: "h ''urlRegex'' = Some su \<and> ((\<exists>s. su = PStr s) \<or> (\<exists>s. su = PUnicode s))"
  then have u: "h ''urlRegex'' = Some su"
    and su: "(\<exists>s. su = PStr s) \<or> (\<exists>s. su = PUnicode s)" by simp_all
  from AppendRegexToPath_string [OF sd] obtain p where
    p: "AppendRegexToPath sd [CHR 0x5C, CHR ''1''] = Inr p" by blast
  from AppendRegexToPath_string [OF sd] obtain up where
    up: "AppendRegexToPath sd ''.*'' = Inr up" by blast
  from AppendRegexToPath_string [OF su] obtain ur where
    ur: "AppendRegexToPath su ''(.*)'' = Inr ur" by blast
  have r: "\<exists>out. snd (ConvertUrlHandler h) = Inr out"
    by (simp add: sugar_closed_form_strings [OF na d u p up ur]
          restructure_eq [OF HANDLER_FIELDS_simps(1)])
  then show "\<exists>out. snd (ConvertUrlHandler h) = Inr out" .
  fix k from r show "snd (ConvertUrlHandler h) \<noteq> Inl (KeyError k)" by auto
next
  assume "\<not> has_key h ''urlRegex''"
  then have nu: "h ''urlRegex'' = None" by (simp add: has_key_def)
  from na d have "GetHandlerType h = Inr ''staticDirectory''"
    by (simp add: GetHandlerType_def has_key_def)
  then show "ConvertUrlHandler h = (h, Inl (KeyError ''urlRegex''))"
    by (rule ConvertUrlHandler_sugar_fail) (rule static_dir_tmp_no_url_strings [OF d sd nu])
next
  fix m show "KeyError ''urlRegex'' \<noteq> ValueError m" by simp
qed

theorem sugar_expansion_missing_key_witness:
  "\<not> has_key [''staticDir'' \<mapsto> PStr ''static_files/''] ''apiEndpoint'' \<and>
   \<not> has_key [''staticDir'' \<mapsto> PStr ''static_files/''] ''urlRegex'' \<and>
   ConvertUrlHandler [''staticDir'' \<mapsto> PStr ''static_files/''] =
     ([''staticDir'' \<mapsto> PStr ''static_files/''], Inl (KeyError ''urlRegex'')) \<and>
   \<not> has_key [''staticDir'' \<mapsto> PStr ''static_files/'', ''urlRegex'' \<mapsto> PStr ''foo'']
       ''apiEndpoint'' \<and>
   (\<exists>out. snd (ConvertUrlHandler
               [''staticDir'' \<mapsto> PStr ''static_files/'', ''urlRegex'' \<mapsto> PStr ''foo'']) =
          Inr out)"
proof -
  let ?h1 = "[''staticDir'' \<mapsto> PStr ''static_files/'']"
  let ?h2 = "[''staticDir'' \<mapsto> PStr ''static_files/'', ''urlRegex'' \<mapsto> PStr ''foo'']"
  have a1: "\<not> has_key ?h1 ''apiEndpoint''" and u1: "\<not> has_key ?h1 ''urlRegex''"
    and d1: "?h1 ''staticDir'' = Some (PStr ''static_files/'')"
    by (simp_all add: has_key_def)
  have a2: "\<not> has_key ?h2 ''apiEndpoint''"
    and d2: "?h2 ''staticDir'' = Some (PStr ''static_files/'')"
    and u2: "?h2 ''urlRegex'' = Some (PStr ''foo'') \<and>
             ((\<exists>s. PStr ''foo'' = PStr s) \<or> (\<exists>s. PStr ''foo'' = PUnicode s))"
    by (simp_all add: has_key_def)
  have sd: "(\<exists>s. PStr ''static_files/'' = PStr s) \<or> (\<exists>s. PStr ''static_files/'' = PUnicode s)"
    by simp
  note t1 = sugar_expansion_missing_key [OF a1 d1 sd]
  note t2 = sugar_expansion_missing_key [OF a2 d2 sd]
  from t1 [THEN conjunct2, THEN mp, OF u1, THEN conjunct1]
  have e1: "ConvertUrlHandler ?h1 = (?h1, Inl (KeyError ''urlRegex''))" .
  from t2 [THEN conjunct1, THEN spec, THEN mp, OF u2, THEN conjunct1]
  have e2: "\<exists>out. snd (ConvertUrlHandler ?h2) = Inr out" .
  from a1 u1 e1 a2 e2 show ?thesis by (intro conjI)
qed

section \<open>Properties of the value converters\<close>

text \<open>
  C4: \<^verbatim>\<open>EnumConverter(prefix)\<close> fails, with a \<^verbatim>\<open>ValueError\<close> and before any value is
  supplied (the outcome of the factory is the error, not a function), exactly when
  the prefix is empty, differs from its upper-cased form, or ends with an underscore;
  otherwise it returns a function that maps every string \<open>value\<close> to the prefix, an
  underscore and the upper-cased value. A prefix equals its upper-cased form exactly
  when it has no lower-case letter.
\<close>

theorem EnumConverter_prefix_check:
  "((\<exists>e. EnumConverter prefix = Inl e) \<longleftrightarrow>
      prefix = [] \<or> prefix \<noteq> upper prefix \<or> endswith prefix ''_'') \<and>
   (\<forall>e. EnumConverter prefix = Inl e \<longrightarrow> (\<exists>m. e = ValueError m)) \<and>
   (prefix \<noteq> [] \<and> prefix = upper prefix \<and> \<not> endswith prefix ''_'' \<longrightarrow>
      (\<exists>f. EnumConverter prefix = Inr f \<and>
           (\<forall>value. f value = prefix @ ''_'' @ upper value))) \<and>
   (prefix = upper prefix \<longleftrightarrow>
      (\<forall>c \<in> set prefix. c \<notin> set ''abcdefghijklmnopqrstuvwxyz'')) \<and>
   (endswith prefix ''_'' \<longleftrightarrow> prefix \<noteq> [] \<and> last prefix = CHR ''_'')"
proof -
  have "prefix = upper prefix \<longleftrightarrow> upper prefix = prefix" by auto
  then have u: "prefix = upper prefix \<longleftrightarrow>
      (\<forall>c \<in> set prefix. c \<notin> set ''abcdefghijklmnopqrstuvwxyz'')"
    by (simp only: upper_fixed)
  have a: "(\<exists>e. EnumConverter prefix = Inl e) \<longleftrightarrow>
      prefix = [] \<or> prefix \<noteq> upper prefix \<or> endswith prefix ''_''"
    by (simp add: EnumConverter_def)
  have b: "\<forall>e. EnumConverter prefix = Inl e \<longrightarrow> (\<exists>m. e = ValueError m)"
    by (auto simp: EnumConverter_def split: if_splits)
  have c: "prefix \<noteq> [] \<and> prefix = upper prefix \<and> \<not> endswith prefix ''_'' \<longrightarrow>
      (\<exists>f. EnumConverter prefix = Inr f \<and>
           (\<forall>value. f value = prefix @ ''_'' @ upper value))"
    by (simp add: EnumConverter_def)
  from a b c u endswith_underscore [of prefix] show ?thesis by (intro conjI)
qed

theorem EnumConverter_prefix_check_witness:
  "''STATUS'' \<noteq> [] \<and> ''STATUS'' = upper ''STATUS'' \<and> \<not> endswith ''STATUS'' ''_'' \<and>
   (\<exists>f. EnumConverter ''STATUS'' = Inr f \<and> f ''ok'' = ''STATUS_OK'') \<and>
   (\<exists>e. EnumConverter ''status'' = Inl e) \<and>
   (\<exists>e. EnumConverter ''STATUS_'' = Inl e) \<and>
   (\<exists>e. EnumConverter [] = Inl e)"
proof -
  have p: "''STATUS'' \<noteq> [] \<and> ''STATUS'' = upper ''STATUS'' \<and> \<not> endswith ''STATUS'' ''_''"
    by (simp add: upper_def upper_char_def endswith_def)
  note th = EnumConverter_prefix_check [of "''STATUS''"]
  from th [THEN conjunct2, THEN conjunct2, THEN conjunct1, THEN mp, OF p]
  obtain f where f: "EnumConverter ''STATUS'' = Inr f"
    and v: "\<forall>value. f value = ''STATUS'' @ ''_'' @ upper value"
    by (elim exE conjE)
  from v have "f ''ok'' = ''STATUS_OK''" by (simp add: upper_def upper_char_def)
  with f have ok: "\<exists>f. EnumConverter ''STATUS'' = Inr f \<and> f ''ok'' = ''STATUS_OK''" by blast
  have "''status'' \<noteq> upper ''status''" by (simp add: upper_def upper_char_def)
  with EnumConverter_prefix_check [of "''status''", THEN conjunct1]
  have l: "\<exists>e. EnumConverter ''status'' = Inl e" by simp
  have "endswith ''STATUS_'' ''_''" by (simp add: endswith_def)
  with EnumConverter_prefix_check [of "''STATUS_''", THEN conjunct1]
  have t: "\<exists>e. EnumConverter ''STATUS_'' = Inl e" by simp
  from EnumConverter_prefix_check [of "[]", THEN conjunct1]
  have e: "\<exists>e. EnumConverter [] = Inl e" by simp
  from p ok l t e show ?thesis by (intro conjI) simp_all
qed



text \<open>
  C6: \<^verbatim>\<open>ToJsonString\<close> on the \<^verbatim>\<open>unicode\<close> string of the single character U+00E9
  (code point 233), the value a YAML loader gives for that scalar. The value is a
  string, neither a list nor a dictionary, and \<^verbatim>\<open>str(value)\<close> raises
  \<^verbatim>\<open>UnicodeEncodeError\<close>, a \<^verbatim>\<open>ValueError\<close>, instead of returning its text: the docstring
  promises the value as a string for every primitive value, and a \<^verbatim>\<open>ValueError\<close> for
  a non-primitive one.
\<close>

theorem ToJsonString_non_ascii_unicode:
  "ToJsonString (PUnicode [233]) = Inl UnicodeEncodeError"
  by (simp add: ToJsonString_def)

text \<open>
  On every other value \<^verbatim>\<open>ToJsonString\<close> does what its docstring says: it fails, with
  the \<^verbatim>\<open>ValueError\<close> of its own check, on lists and dictionaries, and beyond them only
  on a \<^verbatim>\<open>unicode\<close> string with a code point above 127; a boolean gives \<^verbatim>\<open>true\<close> or
  \<^verbatim>\<open>false\<close> (where \<^verbatim>\<open>str\<close> gives \<^verbatim>\<open>True\<close> or \<^verbatim>\<open>False\<close>), a byte string is returned as
  it is, an ASCII \<^verbatim>\<open>unicode\<close> string gives its bytes, and an integer gives its decimal
  numeral, the text that \<^verbatim>\<open>int\<close> reads back as the same integer.
\<close>

lemma ToJsonString_values:
  "((\<exists>e. ToJsonString v = Inl e) \<longleftrightarrow>
      (\<exists>xs. v = PList xs) \<or> (\<exists>d. v = PDict d) \<or>
      (\<exists>u. v = PUnicode u \<and> \<not> list_all (\<lambda>c. c < 128) u)) \<and>
   (\<forall>e. ToJsonString v = Inl e \<longrightarrow> (\<exists>m. e = ValueError m) \<or> e = UnicodeEncodeError) \<and>
   ((\<exists>m. ToJsonString v = Inl (ValueError m)) \<longleftrightarrow> (\<exists>xs. v = PList xs) \<or> (\<exists>d. v = PDict d)) \<and>
   ToJsonString (PBool True) = Inr ''true'' \<and>
   ToJsonString (PBool False) = Inr ''false'' \<and>
   str_bool True = ''True'' \<and> str_bool False = ''False'' \<and>
   ToJsonString (PStr s) = Inr s \<and>
   (list_all (\<lambda>c. c < 128) u \<longrightarrow> ToJsonString (PUnicode u) = Inr (map char_of u)) \<and>
   ToJsonString (PInt i) = Inr (str_int i) \<and> py_int (str_int i) = Inr i \<and>
   ToJsonString (PInt 3) = Inr ''3''"
proof -
  have 1: "(\<exists>e. ToJsonString v = Inl e) \<longleftrightarrow>
      (\<exists>xs. v = PList xs) \<or> (\<exists>d. v = PDict d) \<or>
      (\<exists>u. v = PUnicode u \<and> \<not> list_all (\<lambda>c. c < 128) u)"
    by (cases v) (simp_all add: ToJsonString_def)
  have 2: "\<forall>e. ToJsonString v = Inl e \<longrightarrow> (\<exists>m. e = ValueError m) \<or> e = UnicodeEncodeError"
    by (cases v) (auto simp: ToJsonString_def split: if_splits)
  have 3: "(\<exists>m. ToJsonString v = Inl (ValueError m)) \<longleftrightarrow>
      (\<exists>xs. v = PList xs) \<or> (\<exists>d. v = PDict d)"
    by (cases v) (simp_all add: ToJsonString_def)
  have 4: "ToJsonString (PBool True) = Inr ''true''" "ToJsonString (PBool False) = Inr ''false''"
    "str_bool True = ''True''" "str_bool False = ''False''"
    by (simp_all add: ToJsonString_def str_bool_def lower_def lower_char_def)
  have 5: "ToJsonString (PStr s) = Inr s" "ToJsonString (PInt i) = Inr (str_int i)"
    "list_all (\<lambda>c. c < 128) u \<longrightarrow> ToJsonString (PUnicode u) = Inr (map char_of u)"
    by (simp_all add: ToJsonString_def)
  have 6: "ToJsonString (PInt 3) = Inr ''3''"
    by (simp add: ToJsonString_def str_int_def str_nat.simps)
  from 1 2 3 4 5(1) 5(3) 5(2) py_int_str_int [of i] 6 show ?thesis by (intro conjI)
qed




text \<open>
  The branches of \<^verbatim>\<open>LatencyToDuration\<close> that involve no floating-point arithmetic: a
  string that does not match is refused with a \<^verbatim>\<open>ValueError\<close>, \<^verbatim>\<open>automatic\<close> gives no
  value, a matching string without the suffix \<^verbatim>\<open>ms\<close> is returned as it is, and a
  matching string with the suffix gives the text of the quotient followed by \<^verbatim>\<open>s\<close>.
\<close>

lemma LatencyToDuration_branches:
  "(\<not> pending_latency_match v \<longrightarrow>
      LatencyToDuration pending_latency_match seconds_of_ms v =
        Inl (ValueError ''Unrecognized latency: %s'')) \<and>
   (pending_latency_match ''automatic'' \<longrightarrow>
      LatencyToDuration pending_latency_match seconds_of_ms ''automatic'' = Inr None) \<and>
   (pending_latency_match v \<and> v \<noteq> ''automatic'' \<and> \<not> endswith v ''ms'' \<longrightarrow>
      LatencyToDuration pending_latency_match seconds_of_ms v = Inr (Some v)) \<and>
   (pending_latency_match v \<and> endswith v ''ms'' \<and>
    seconds_of_ms (take (length v - 2) v) = Inr seconds \<longrightarrow>
      LatencyToDuration pending_latency_match seconds_of_ms v = Inr (Some (seconds @ ''s'')))"
  by (auto simp: LatencyToDuration_def endswith_def)

end
